theory Spec2Isabelle
  imports Main
begin

section \<open>Values, descriptors and objects\<close>

text \<open>
  The membrane of \<^verbatim>\<open>src/red.ts\<close> runs in the guest ("red") realm and receives values of
  the host ("blue") realm. Host values and guest values are kept apart by type, as the
  source does with \<^verbatim>\<open>BlueValue\<close> and \<^verbatim>\<open>RedValue\<close>. A guest value \<open>RHost a\<close> is a host
  reference held by guest code without a wrapper: what a cast \<^verbatim>\<open>blue as RedValue\<close> of an
  object would give; \<open>RIntrinsic name\<close> is a built-in object of the guest realm.
\<close>

type_synonym addr = nat

datatype pkey = KIdx nat | KStr string | KSym string

datatype prim = PNum int | PStr string | PBool bool

datatype bval = BUndef | BNull | BPrim prim | BObj addr

datatype rval = RUndef | RNull | RPrim prim | RObj addr | RHost addr | RIntrinsic string

datatype 'v desc =
    DataDesc (dvalue: 'v) (writable: bool) (enumerable: bool) (configurable: bool)
  | AccDesc (getter: 'v) (setter: 'v) (enumerable: bool) (configurable: bool)

datatype jstype = TyFunction | TyObject | TyUndefined

text \<open>
  An object as the reflective operations see it: the result of \<^verbatim>\<open>typeof\<close>, whether
  \<^verbatim>\<open>Array.isArray\<close> holds and the elements then, the delegation parent, the own
  properties in creation order, and the extensibility flag.
\<close>

record 'v obj =
  o_typeof :: jstype
  o_array :: bool
  o_elems :: "'v list"
  o_proto :: 'v
  o_props :: "(pkey \<times> 'v desc) list"
  o_extensible :: bool

fun isData :: "'v desc \<Rightarrow> bool" where
  "isData (DataDesc _ _ _ _) = True"
| "isData (AccDesc _ _ _ _) = False"

text \<open>\<^verbatim>\<open>descriptor.value\<close>: the stored value, \<^verbatim>\<open>undefined\<close> on an accessor descriptor.\<close>

fun valueField :: "'v \<Rightarrow> 'v desc \<Rightarrow> 'v" where
  "valueField undef (DataDesc v _ _ _) = v"
| "valueField undef (AccDesc _ _ _ _) = undef"

subsection \<open>Reflective operations on an ordinary object\<close>

definition getOwnPropertyDescriptor :: "('v, 'm) obj_scheme \<Rightarrow> pkey \<Rightarrow> 'v desc option" where
  "getOwnPropertyDescriptor ob k = map_of (o_props ob) k"

fun replaceDesc :: "pkey \<Rightarrow> 'v desc \<Rightarrow> (pkey \<times> 'v desc) list \<Rightarrow> (pkey \<times> 'v desc) list" where
  "replaceDesc k d [] = []"
| "replaceDesc k d ((k', d') # ps) =
     (if k' = k then (k, d) # ps else (k', d') # replaceDesc k d ps)"

text \<open>
  Whether a complete descriptor may replace a non-configurable one
  (ValidateAndApplyPropertyDescriptor with every field present).
\<close>

fun compatibleDesc :: "'v desc \<Rightarrow> 'v desc \<Rightarrow> bool" where
  "compatibleDesc (DataDesc cv cw ce cc) (DataDesc v w e c) =
     (\<not> c \<and> e = ce \<and> (cw \<or> (\<not> w \<and> v = cv)))"
| "compatibleDesc (AccDesc cg cs ce cc) (AccDesc g s e c) =
     (\<not> c \<and> e = ce \<and> g = cg \<and> s = cs)"
| "compatibleDesc _ _ = False"

text \<open>
  \<^verbatim>\<open>Reflect.defineProperty(o, key, desc)\<close> with a complete descriptor: the success flag
  and the object afterwards. It never throws on an ordinary object.
\<close>

definition defineProperty ::
  "('v, 'm) obj_scheme \<Rightarrow> pkey \<Rightarrow> 'v desc \<Rightarrow> bool \<times> ('v, 'm) obj_scheme" where
  "defineProperty ob k d =
     (case getOwnPropertyDescriptor ob k of
        None \<Rightarrow>
          if o_extensible ob then (True, ob\<lparr>o_props := o_props ob @ [(k, d)]\<rparr>)
          else (False, ob)
      | Some cur \<Rightarrow>
          if configurable cur \<or> compatibleDesc cur d
          then (True, ob\<lparr>o_props := replaceDesc k d (o_props ob)\<rparr>)
          else (False, ob))"

text \<open>
  The assignment \<^verbatim>\<open>o[key] = v\<close> where \<open>o\<close> has an own writable data property \<open>key\<close>:
  only the stored value changes. (The source reaches the assignment in that case only.)
\<close>

fun storeValue :: "pkey \<Rightarrow> 'v \<Rightarrow> (pkey \<times> 'v desc) list \<Rightarrow> (pkey \<times> 'v desc) list" where
  "storeValue k v [] = []"
| "storeValue k v ((k', d) # ps) =
     (if k' = k
      then (case d of
              DataDesc old w e c \<Rightarrow> (if w then (k, DataDesc v w e c) # ps else (k', d) # ps)
            | AccDesc g s e c \<Rightarrow> (k', d) # ps)
      else (k', d) # storeValue k v ps)"

definition assignOwn :: "('v, 'm) obj_scheme \<Rightarrow> pkey \<Rightarrow> 'v \<Rightarrow> ('v, 'm) obj_scheme" where
  "assignOwn ob k v = ob\<lparr>o_props := storeValue k v (o_props ob)\<rparr>"

subsection \<open>Partial descriptors\<close>

text \<open>
  A descriptor as guest code passes it to \<^verbatim>\<open>defineProperty\<close>: any field may be absent.
  \<open>definePropertyPartial\<close> is \<^verbatim>\<open>Reflect.defineProperty\<close> with such a descriptor that is
  well formed: not both an accessor and a data descriptor.
\<close>

record 'v pdesc =
  p_value :: "'v option"
  p_get :: "'v option"
  p_set :: "'v option"
  p_writable :: "bool option"
  p_enumerable :: "bool option"
  p_configurable :: "bool option"

fun dflt :: "'a \<Rightarrow> 'a option \<Rightarrow> 'a" where
  "dflt x None = x"
| "dflt x (Some y) = y"

definition isAccessorPartial :: "'v pdesc \<Rightarrow> bool" where
  "isAccessorPartial pd = (p_get pd \<noteq> None \<or> p_set pd \<noteq> None)"

definition isDataPartial :: "'v pdesc \<Rightarrow> bool" where
  "isDataPartial pd = (p_value pd \<noteq> None \<or> p_writable pd \<noteq> None)"

definition newDesc :: "'v \<Rightarrow> 'v pdesc \<Rightarrow> 'v desc" where
  "newDesc undef pd =
     (if isAccessorPartial pd
      then AccDesc (dflt undef (p_get pd)) (dflt undef (p_set pd))
             (dflt False (p_enumerable pd)) (dflt False (p_configurable pd))
      else DataDesc (dflt undef (p_value pd)) (dflt False (p_writable pd))
             (dflt False (p_enumerable pd)) (dflt False (p_configurable pd)))"

fun permitted :: "'v desc \<Rightarrow> 'v pdesc \<Rightarrow> bool" where
  "permitted (DataDesc cv cw ce cc) pd =
     (p_configurable pd \<noteq> Some True \<and> (p_enumerable pd = None \<or> p_enumerable pd = Some ce)
      \<and> \<not> isAccessorPartial pd
      \<and> (cw \<or> (p_writable pd \<noteq> Some True \<and> (p_value pd = None \<or> p_value pd = Some cv))))"
| "permitted (AccDesc cg cs ce cc) pd =
     (p_configurable pd \<noteq> Some True \<and> (p_enumerable pd = None \<or> p_enumerable pd = Some ce)
      \<and> \<not> isDataPartial pd
      \<and> (p_get pd = None \<or> p_get pd = Some cg) \<and> (p_set pd = None \<or> p_set pd = Some cs))"

fun mergeDesc :: "'v \<Rightarrow> 'v desc \<Rightarrow> 'v pdesc \<Rightarrow> 'v desc" where
  "mergeDesc undef (DataDesc cv cw ce cc) pd =
     (if isAccessorPartial pd
      then AccDesc (dflt undef (p_get pd)) (dflt undef (p_set pd))
             (dflt ce (p_enumerable pd)) (dflt cc (p_configurable pd))
      else DataDesc (dflt cv (p_value pd)) (dflt cw (p_writable pd))
             (dflt ce (p_enumerable pd)) (dflt cc (p_configurable pd)))"
| "mergeDesc undef (AccDesc cg cs ce cc) pd =
     (if isDataPartial pd
      then DataDesc (dflt undef (p_value pd)) (dflt False (p_writable pd))
             (dflt ce (p_enumerable pd)) (dflt cc (p_configurable pd))
      else AccDesc (dflt cg (p_get pd)) (dflt cs (p_set pd))
             (dflt ce (p_enumerable pd)) (dflt cc (p_configurable pd)))"

definition definePropertyPartial ::
  "'v \<Rightarrow> ('v, 'm) obj_scheme \<Rightarrow> pkey \<Rightarrow> 'v pdesc \<Rightarrow> bool \<times> ('v, 'm) obj_scheme" where
  "definePropertyPartial undef ob k pd =
     (case getOwnPropertyDescriptor ob k of
        None \<Rightarrow>
          if o_extensible ob then (True, ob\<lparr>o_props := o_props ob @ [(k, newDesc undef pd)]\<rparr>)
          else (False, ob)
      | Some cur \<Rightarrow>
          if configurable cur \<or> permitted cur pd
          then (True, ob\<lparr>o_props := replaceDesc k (mergeDesc undef cur pd) (o_props ob)\<rparr>)
          else (False, ob))"

section \<open>The install policy of the static snapshot\<close>

text \<open>
  \<^verbatim>\<open>installDescriptorIntoShadowTarget\<close> (red.ts, lines 188 to 205). The descriptor read back
  from the shadow target is complete, so \<^verbatim>\<open>hasOwnProperty(.., 'configurable')\<close> holds and
  \<^verbatim>\<open>hasOwnProperty(.., 'writable')\<close> holds exactly on a data descriptor.
\<close>

definition installDescriptorIntoShadowTarget ::
  "rval obj \<Rightarrow> pkey \<Rightarrow> rval desc \<Rightarrow> rval obj" where
  "installDescriptorIntoShadowTarget shadowTarget key originalDescriptor =
     (case getOwnPropertyDescriptor shadowTarget key of
        Some shadowTargetDescriptor \<Rightarrow>
          if configurable shadowTargetDescriptor
          then snd (defineProperty shadowTarget key originalDescriptor)
          else if isData shadowTargetDescriptor \<and> writable shadowTargetDescriptor
          then assignOwn shadowTarget key (valueField RUndef originalDescriptor)
          else shadowTarget
      | None \<Rightarrow> snd (defineProperty shadowTarget key originalDescriptor))"

section \<open>Host objects and the state of one membrane\<close>

text \<open>
  A host value may be a proxy of the host's own making: any reflective call on it may throw
  (a revoked proxy throws on all of them), and its \<^verbatim>\<open>preventExtensions\<close> may answer
  \<^verbatim>\<open>false\<close>. \<open>h_throws\<close> lists the calls that throw on the object.
\<close>

datatype reflect_op =
    OpGetPrototypeOf | OpGetOwnPropertyDescriptors | OpIsFrozen | OpIsSealed
  | OpIsExtensible | OpIsArray | OpHas | OpGetOwnPropertyDescriptor | OpOwnKeys
  | OpPreventExtensions

record hobj = "bval obj" +
  h_throws :: "reflect_op list"
  h_rejectsPreventExtensions :: bool

definition throwsOn :: "hobj \<Rightarrow> reflect_op \<Rightarrow> bool" where
  "throwsOn ob op = (op \<in> set (h_throws ob))"

text \<open>What crosses the boundary as an exception.\<close>

datatype thrown =
    GuestConstructed rval    \<comment> \<open>the result of \<^verbatim>\<open>construct(redErrorConstructor, [message])\<close>\<close>
  | GuestError bval          \<comment> \<open>\<^verbatim>\<open>new Error(message)\<close> of the guest realm\<close>
  | GuestTypeError           \<comment> \<open>a \<^verbatim>\<open>TypeError\<close> of the guest realm\<close>
  | InternalError            \<comment> \<open>\<^verbatim>\<open>ErrorCreate('Internal Error')\<close>\<close>
  | StackExhausted           \<comment> \<open>the recursion ran out of stack\<close>
  | HostThrown bval          \<comment> \<open>a host exception that reaches the guest as it is\<close>
  | HostFailure              \<comment> \<open>a reflective call on a host value threw\<close>

text \<open>\<^verbatim>\<open>TargetMeta\<close>: the fields the source assigns; an unassigned flag reads as false.\<close>

record meta =
  m_proto :: bval
  m_descriptors :: "(pkey \<times> bval desc) list"
  m_isFrozen :: bool
  m_isSealed :: bool
  m_isExtensible :: bool
  m_isBroken :: bool

text \<open>
  The handler of a wrapper. The flag of the static handler is true once
  \<^verbatim>\<open>this.initialize = noop\<close> has run. \<open>EmptyHandler\<close> is the \<^verbatim>\<open>{}\<close> of
  \<^verbatim>\<open>Proxy.revocable(shadowTarget, {})\<close>, \<open>RevokedHandler\<close> a proxy after \<^verbatim>\<open>revoke()\<close>.
\<close>

datatype handler =
    RedStaticProxyHandler addr meta bool
  | RedDynamicProxyHandler addr
  | EmptyHandler
  | RevokedHandler

datatype robj =
    RProxy "rval obj" handler  \<comment> \<open>a wrapper: its shadow target and its handler\<close>
  | RArray "rval list"         \<comment> \<open>a guest array\<close>
  | RPlain "rval obj"          \<comment> \<open>any other guest object\<close>

record state =
  blueHeap :: "addr \<Rightarrow> hobj"
  redHeap :: "addr \<Rightarrow> robj option"
  blueMap :: "addr \<Rightarrow> rval option"
  redMap :: "addr \<Rightarrow> bval option"
  distortionMap :: "addr \<Rightarrow> addr option"
  nextRed :: addr

definition alloc :: "state \<Rightarrow> robj \<Rightarrow> addr \<times> state" where
  "alloc s ob = (nextRed s, s\<lparr>redHeap := (redHeap s)(nextRed s \<mapsto> ob), nextRed := Suc (nextRed s)\<rparr>)"

text \<open>
  Modelled from the spec: \<^verbatim>\<open>blueEnv.setRefMapEntries(red, blue)\<close>, of the membrane broker
  that is not among the sources. The spec has it bind the guest value as the counterpart of
  the host value in the identity map; it is given a way to fail because the source catches
  its failure, and never takes it.
\<close>

definition setRefMapEntries :: "state \<Rightarrow> addr \<Rightarrow> addr \<Rightarrow> thrown + state" where
  "setRefMapEntries s red blue =
     Inr (s\<lparr>redMap := (redMap s)(red \<mapsto> BObj blue), blueMap := (blueMap s)(blue \<mapsto> RObj red)\<rparr>)"

subsection \<open>Reflective calls on a host value\<close>

text \<open>An array's elements are its index properties, followed by \<^verbatim>\<open>length\<close>.\<close>

definition hostOwnProps :: "hobj \<Rightarrow> (pkey \<times> bval desc) list" where
  "hostOwnProps ob =
     (if o_array ob
      then map (\<lambda>(i, v). (KIdx i, DataDesc v True True True)) (enumerate 0 (o_elems ob))
           @ [(KStr ''length'', DataDesc (BPrim (PNum (int (length (o_elems ob))))) True False False)]
      else [])
     @ o_props ob"

definition isFrozen :: "hobj \<Rightarrow> bool" where
  "isFrozen ob = (\<not> o_extensible ob \<and>
     list_all (\<lambda>(k, d). \<not> configurable d \<and> (isData d \<longrightarrow> \<not> writable d)) (hostOwnProps ob))"

definition isSealed :: "hobj \<Rightarrow> bool" where
  "isSealed ob = (\<not> o_extensible ob \<and> list_all (\<lambda>(k, d). \<not> configurable d) (hostOwnProps ob))"

text \<open>
  \<^verbatim>\<open>key in blue\<close>: the own properties, then the delegation chain. Each step up the chain
  takes one level of the stack it is given; running out of it throws, as any other failure
  of the probe does.
\<close>

fun hasProperty :: "nat \<Rightarrow> (addr \<Rightarrow> hobj) \<Rightarrow> addr \<Rightarrow> pkey \<Rightarrow> thrown + bool" where
  "hasProperty n heap a k =
     (if throwsOn (heap a) OpHas then Inl HostFailure
      else if map_of (hostOwnProps (heap a)) k \<noteq> None then Inr True
      else (case o_proto (heap a) of
              BObj p \<Rightarrow> (case n of 0 \<Rightarrow> Inl StackExhausted | Suc m \<Rightarrow> hasProperty m heap p k)
            | _ \<Rightarrow> Inr False))"

section \<open>Target metadata\<close>

text \<open>
  \<^verbatim>\<open>getTargetMeta\<close> (lines 256 to 283). The calls are made in the order of the source;
  the first that throws leads to the \<^verbatim>\<open>catch\<close>, which overwrites parent and attributes and
  sets \<^verbatim>\<open>isBroken\<close>, and keeps the lifecycle flags assigned before.
\<close>

definition brokenMeta :: "bool \<Rightarrow> bool \<Rightarrow> bool \<Rightarrow> meta" where
  "brokenMeta fr se ex =
     \<lparr>m_proto = BNull, m_descriptors = [], m_isFrozen = fr, m_isSealed = se,
      m_isExtensible = ex, m_isBroken = True\<rparr>"

definition probedMeta :: "hobj \<Rightarrow> bool \<Rightarrow> bool \<Rightarrow> bool \<Rightarrow> meta" where
  "probedMeta ob fr se ex =
     (if throwsOn ob OpIsArray then brokenMeta fr se ex
      else \<lparr>m_proto = o_proto ob, m_descriptors = hostOwnProps ob, m_isFrozen = fr,
            m_isSealed = se, m_isExtensible = ex, m_isBroken = False\<rparr>)"

definition getTargetMeta :: "(addr \<Rightarrow> hobj) \<Rightarrow> addr \<Rightarrow> meta" where
  "getTargetMeta heap target =
     (let ob = heap target in
      if throwsOn ob OpGetPrototypeOf then brokenMeta False False False
      else if throwsOn ob OpGetOwnPropertyDescriptors then brokenMeta False False False
      else if throwsOn ob OpIsFrozen then brokenMeta False False False
      else if isFrozen ob then probedMeta ob True True True
      else if throwsOn ob OpIsSealed then brokenMeta False False False
      else if isSealed ob then probedMeta ob False True True
      else if throwsOn ob OpIsExtensible then brokenMeta False False False
      else if o_extensible ob then probedMeta ob False False True
      else probedMeta ob False False False)"

section \<open>Shadow targets\<close>

text \<open>The cast \<^verbatim>\<open>blue as RedValue\<close>: no conversion takes place.\<close>

fun rawCast :: "bval \<Rightarrow> rval" where
  "rawCast BUndef = RUndef"
| "rawCast BNull = RNull"
| "rawCast (BPrim p) = RPrim p"
| "rawCast (BObj a) = RHost a"

definition isFunction :: "state \<Rightarrow> bval \<Rightarrow> bool" where
  "isFunction s v = (case v of BObj a \<Rightarrow> o_typeof (blueHeap s a) = TyFunction | _ \<Rightarrow> False)"

text \<open>
  \<^verbatim>\<open>renameFunction\<close> (lines 176 to 186): the host's own \<^verbatim>\<open>name\<close> descriptor is defined on
  the receiver as it is. Reading it may throw, and defining \<^verbatim>\<open>undefined\<close> throws; both are
  swallowed.
\<close>

definition renameFunction :: "hobj \<Rightarrow> rval obj \<Rightarrow> rval obj" where
  "renameFunction blueProvider receiver =
     (if throwsOn blueProvider OpGetOwnPropertyDescriptor then receiver
      else (case map_of (hostOwnProps blueProvider) (KStr ''name'') of
              None \<Rightarrow> receiver
            | Some nameDescriptor \<Rightarrow>
                snd (defineProperty receiver (KStr ''name'') (map_desc rawCast nameDescriptor))))"

text \<open>
  The three placeholders of \<^verbatim>\<open>createRedShadowTarget\<close>, as the guest realm creates them in
  strict code: \<^verbatim>\<open>{}\<close>, \<^verbatim>\<open>() => {}\<close> and \<^verbatim>\<open>function () {}\<close>, the last with its
  \<^verbatim>\<open>prototype\<close> object at the address given.
\<close>

definition objectShadow :: "rval obj" where
  "objectShadow =
     \<lparr>o_typeof = TyObject, o_array = False, o_elems = [],
      o_proto = RIntrinsic ''Object.prototype'', o_props = [], o_extensible = True\<rparr>"

definition arrowShadow :: "rval obj" where
  "arrowShadow =
     \<lparr>o_typeof = TyFunction, o_array = False, o_elems = [],
      o_proto = RIntrinsic ''Function.prototype'',
      o_props = [(KStr ''length'', DataDesc (RPrim (PNum 0)) False False True),
                 (KStr ''name'', DataDesc (RPrim (PStr [])) False False True)],
      o_extensible = True\<rparr>"

definition functionShadow :: "addr \<Rightarrow> rval obj" where
  "functionShadow p =
     arrowShadow\<lparr>o_props := o_props arrowShadow
       @ [(KStr ''prototype'', DataDesc (RObj p) True False False)]\<rparr>"

text \<open>
  \<^verbatim>\<open>createRedShadowTarget\<close> (lines 574 to 590). A failing \<^verbatim>\<open>'prototype' in blue\<close> gives
  the arrow function. The \<^verbatim>\<open>prototype\<close> object of \<^verbatim>\<open>function () {}\<close> is a new guest
  object (its \<^verbatim>\<open>constructor\<close> entry is not modelled).
\<close>

definition createRedShadowTarget :: "nat \<Rightarrow> state \<Rightarrow> addr \<Rightarrow> rval obj \<times> state" where
  "createRedShadowTarget n s blue =
     (if o_typeof (blueHeap s blue) = TyFunction
      then (case hasProperty n (blueHeap s) blue (KStr ''prototype'') of
              Inr True \<Rightarrow>
                (let (p, s1) = alloc s (RPlain objectShadow)
                 in (renameFunction (blueHeap s blue) (functionShadow p), s1))
            | _ \<Rightarrow> (renameFunction (blueHeap s blue) arrowShadow, s))
      else (objectShadow, s))"

section \<open>The guest-value factory\<close>

definition LockerLiveValueMarkerSymbol :: pkey where
  "LockerLiveValueMarkerSymbol = KSym ''@@lockerLiveValue''"

definition getDistortedValue :: "state \<Rightarrow> addr \<Rightarrow> addr" where
  "getDistortedValue s target =
     (case distortionMap s target of None \<Rightarrow> target | Some distortedTarget \<Rightarrow> distortedTarget)"

definition revoke :: "state \<Rightarrow> addr \<Rightarrow> state" where
  "revoke s p =
     (case redHeap s p of
        Some (RProxy sh h) \<Rightarrow> s\<lparr>redHeap := (redHeap s)(p \<mapsto> RProxy sh RevokedHandler)\<rparr>
      | _ \<Rightarrow> s)"

text \<open>
  Every operation below returns its result, or what it throws, together with the state it
  leaves: what was allocated or registered before a throw stays.
\<close>

type_synonym 'a outcome = "(thrown + 'a) \<times> state"

text \<open>\<^verbatim>\<open>getRevokedRedProxy\<close> (lines 592 to 598): registered, then revoked.\<close>

definition getRevokedRedProxy :: "nat \<Rightarrow> state \<Rightarrow> addr \<Rightarrow> addr outcome" where
  "getRevokedRedProxy n s blue =
     (let (shadowTarget, s1) = createRedShadowTarget n s blue;
          (proxy, s2) = alloc s1 (RProxy shadowTarget EmptyHandler)
      in case setRefMapEntries s2 proxy blue of
           Inl e \<Rightarrow> (Inl e, s2)
         | Inr s3 \<Rightarrow> (Inr proxy, revoke s3 proxy))"

text \<open>
  \<^verbatim>\<open>createRedProxy\<close> (lines 600 to 625). The distortion is applied first; the metadata,
  the shadow target and the registration all use the distorted target.
\<close>

definition createRedProxy :: "nat \<Rightarrow> state \<Rightarrow> addr \<Rightarrow> rval outcome" where
  "createRedProxy n s blue0 =
     (let blue = getDistortedValue s blue0;
          meta = getTargetMeta (blueHeap s) blue;
          made =
            (if m_isBroken meta then getRevokedRedProxy n s blue
             else
               (let (shadowTarget, s1) = createRedShadowTarget n s blue;
                    proxyHandler =
                      (if map_of (m_descriptors meta) LockerLiveValueMarkerSymbol \<noteq> None
                       then RedDynamicProxyHandler blue
                       else RedStaticProxyHandler blue meta False);
                    (proxy, s2) = alloc s1 (RProxy shadowTarget proxyHandler)
                in (Inr proxy, s2)))
      in case made of
           (Inl e, s2) \<Rightarrow> (Inl e, s2)
         | (Inr proxy, s2) \<Rightarrow>
             (case setRefMapEntries s2 proxy blue of
                Inl e \<Rightarrow> (Inl InternalError, s2)
              | Inr s3 \<Rightarrow> (Inr (RObj proxy), s3)))"

text \<open>\<^verbatim>\<open>getRedFunction\<close> (lines 159 to 165).\<close>

definition getRedFunction :: "nat \<Rightarrow> state \<Rightarrow> addr \<Rightarrow> rval outcome" where
  "getRedFunction n s blueFn =
     (case blueMap s blueFn of
        None \<Rightarrow> createRedProxy n s blueFn
      | Some redFn \<Rightarrow> if redFn = RUndef then createRedProxy n s blueFn else (Inr redFn, s))"

text \<open>
  \<^verbatim>\<open>getRedValue\<close> (lines 117 to 151) and \<^verbatim>\<open>getRedArray\<close> (lines 153 to 157). The first
  argument is the stack left for the recursion through nested arrays: an array inside an
  array needs one level more, and the call throws when none is left.
\<close>

fun getRedValue :: "nat \<Rightarrow> state \<Rightarrow> bval \<Rightarrow> rval outcome"
  and getRedElements :: "nat \<Rightarrow> state \<Rightarrow> bval list \<Rightarrow> (rval list) outcome" where
  "getRedValue n s BUndef = (Inr RUndef, s)"
| "getRedValue n s BNull = (Inr RNull, s)"
| "getRedValue n s (BPrim p) = (Inr (RPrim p), s)"
| "getRedValue n s (BObj a) =
     (if o_typeof (blueHeap s a) = TyUndefined then (Inr RUndef, s)
      else if o_typeof (blueHeap s a) = TyFunction then getRedFunction n s a
      else if throwsOn (blueHeap s a) OpIsArray then createRedProxy n s a
      else if o_array (blueHeap s a)
      then (case n of
              0 \<Rightarrow> (Inl StackExhausted, s)
            | Suc m \<Rightarrow>
                (case getRedElements m s (o_elems (blueHeap s a)) of
                   (Inl e, s1) \<Rightarrow> (Inl e, s1)
                 | (Inr b, s1) \<Rightarrow> (let (p, s2) = alloc s1 (RArray b) in (Inr (RObj p), s2))))
      else (case blueMap s a of
              None \<Rightarrow> createRedProxy n s a
            | Some red \<Rightarrow> if red = RUndef then createRedProxy n s a else (Inr red, s)))"
| "getRedElements n s [] = (Inr [], s)"
| "getRedElements n s (blue # rest) =
     (case getRedValue n s blue of
        (Inl e, s1) \<Rightarrow> (Inl e, s1)
      | (Inr r, s1) \<Rightarrow>
          (case getRedElements n s1 rest of
             (Inl e, s2) \<Rightarrow> (Inl e, s2)
           | (Inr rs, s2) \<Rightarrow> (Inr (r # rs), s2)))"

section \<open>Descriptors crossing into the guest\<close>

definition shadowOf :: "state \<Rightarrow> addr \<Rightarrow> rval obj" where
  "shadowOf s p = (case redHeap s p of Some (RProxy sh h) \<Rightarrow> sh | _ \<Rightarrow> objectShadow)"

definition handlerOf :: "state \<Rightarrow> addr \<Rightarrow> handler" where
  "handlerOf s p = (case redHeap s p of Some (RProxy sh h) \<Rightarrow> h | _ \<Rightarrow> RevokedHandler)"

definition putShadow :: "state \<Rightarrow> addr \<Rightarrow> rval obj \<Rightarrow> state" where
  "putShadow s p sh = s\<lparr>redHeap := (redHeap s)(p \<mapsto> RProxy sh (handlerOf s p))\<rparr>"

definition putHandler :: "state \<Rightarrow> addr \<Rightarrow> handler \<Rightarrow> state" where
  "putHandler s p h = s\<lparr>redHeap := (redHeap s)(p \<mapsto> RProxy (shadowOf s p) h)\<rparr>"

text \<open>An accessor of a descriptor: wrapped when it is a function, left as it is otherwise.\<close>

definition getRedAccessor :: "nat \<Rightarrow> state \<Rightarrow> bval \<Rightarrow> rval outcome" where
  "getRedAccessor n s f =
     (case f of
        BObj a \<Rightarrow> if isFunction s f then getRedFunction n s a else (Inr (rawCast f), s)
      | _ \<Rightarrow> (Inr (rawCast f), s))"

text \<open>
  \<^verbatim>\<open>getRedDescriptor\<close> (lines 207 to 225): \<^verbatim>\<open>'writable' in redDescriptor\<close> tells a value
  descriptor; on an accessor descriptor the setter is converted before the getter.
\<close>

fun getRedDescriptor :: "nat \<Rightarrow> state \<Rightarrow> bval desc \<Rightarrow> (rval desc) outcome" where
  "getRedDescriptor n s (DataDesc blueValue w e c) =
     (case (case blueValue of
              BObj a \<Rightarrow> if isFunction s blueValue then getRedFunction n s a
                        else getRedValue n s blueValue
            | _ \<Rightarrow> getRedValue n s blueValue) of
        (Inl x, s1) \<Rightarrow> (Inl x, s1)
      | (Inr r, s1) \<Rightarrow> (Inr (DataDesc r w e c), s1))"
| "getRedDescriptor n s (AccDesc blueGet blueSet e c) =
     (case getRedAccessor n s blueSet of
        (Inl x, s1) \<Rightarrow> (Inl x, s1)
      | (Inr redSet, s1) \<Rightarrow>
          (case getRedAccessor n s1 blueGet of
             (Inl x, s2) \<Rightarrow> (Inl x, s2)
           | (Inr redGet, s2) \<Rightarrow> (Inr (AccDesc redGet redSet e c), s2)))"

fun isSymbol :: "pkey \<Rightarrow> bool" where
  "isSymbol (KSym _) = True"
| "isSymbol _ = False"

text \<open>
  \<^verbatim>\<open>copyRedOwnDescriptors\<close> (lines 227 to 235), on the shadow target of wrapper \<open>p\<close>. The
  \<^verbatim>\<open>for ... in\<close> loop visits the string keys of the descriptor map only, so a symbol key
  is passed over.
\<close>

fun copyRedOwnDescriptors ::
  "nat \<Rightarrow> state \<Rightarrow> addr \<Rightarrow> (pkey \<times> bval desc) list \<Rightarrow> unit outcome" where
  "copyRedOwnDescriptors n s p [] = (Inr (), s)"
| "copyRedOwnDescriptors n s p ((key, blueDescriptor) # rest) =
     (if isSymbol key then copyRedOwnDescriptors n s p rest
      else (case getRedDescriptor n s blueDescriptor of
              (Inl x, s1) \<Rightarrow> (Inl x, s1)
            | (Inr originalDescriptor, s1) \<Rightarrow>
                copyRedOwnDescriptors n
                  (putShadow s1 p
                     (installDescriptorIntoShadowTarget (shadowOf s1 p) key originalDescriptor))
                  p rest))"

text \<open>\<^verbatim>\<open>copyBlueDescriptorIntoShadowTarget\<close> (lines 237 to 246).\<close>

definition copyBlueDescriptorIntoShadowTarget ::
  "nat \<Rightarrow> state \<Rightarrow> addr \<Rightarrow> addr \<Rightarrow> pkey \<Rightarrow> unit outcome" where
  "copyBlueDescriptorIntoShadowTarget n s p originalTarget key =
     (if throwsOn (blueHeap s originalTarget) OpGetOwnPropertyDescriptor then (Inl HostFailure, s)
      else (case map_of (hostOwnProps (blueHeap s originalTarget)) key of
              None \<Rightarrow> (Inr (), s)
            | Some normalizedBlueDescriptor \<Rightarrow>
                (case getRedDescriptor n s normalizedBlueDescriptor of
                   (Inl x, s1) \<Rightarrow> (Inl x, s1)
                 | (Inr redDesc, s1) \<Rightarrow>
                     (Inr (), putShadow s1 p (snd (defineProperty (shadowOf s1 p) key redDesc))))))"

fun copyTargetKeys :: "nat \<Rightarrow> state \<Rightarrow> addr \<Rightarrow> addr \<Rightarrow> pkey list \<Rightarrow> unit outcome" where
  "copyTargetKeys n s p originalTarget [] = (Inr (), s)"
| "copyTargetKeys n s p originalTarget (key # rest) =
     (case copyBlueDescriptorIntoShadowTarget n s p originalTarget key of
        (Inl x, s1) \<Rightarrow> (Inl x, s1)
      | (Inr u, s1) \<Rightarrow> copyTargetKeys n s1 p originalTarget rest)"

definition preventExtensions :: "('v, 'm) obj_scheme \<Rightarrow> ('v, 'm) obj_scheme" where
  "preventExtensions ob = ob\<lparr>o_extensible := False\<rparr>"

text \<open>\<^verbatim>\<open>lockShadowTarget\<close> (lines 248 to 254).\<close>

definition lockShadowTarget :: "nat \<Rightarrow> state \<Rightarrow> addr \<Rightarrow> addr \<Rightarrow> unit outcome" where
  "lockShadowTarget n s p originalTarget =
     (if throwsOn (blueHeap s originalTarget) OpOwnKeys then (Inl HostFailure, s)
      else (case copyTargetKeys n s p originalTarget
                   (map fst (hostOwnProps (blueHeap s originalTarget))) of
              (Inl x, s1) \<Rightarrow> (Inl x, s1)
            | (Inr u, s1) \<Rightarrow> (Inr (), putShadow s1 p (preventExtensions (shadowOf s1 p)))))"

section \<open>The static handler\<close>

fun isObjectOrNull :: "rval \<Rightarrow> bool" where
  "isObjectOrNull RUndef = False"
| "isObjectOrNull (RPrim _) = False"
| "isObjectOrNull _ = True"

text \<open>
  \<^verbatim>\<open>Reflect.setPrototypeOf\<close> on a shadow target: a parent that is neither an object nor
  \<^verbatim>\<open>null\<close> throws. No chain of guest objects leads back to a shadow target, which guest
  code never holds, so the check for a cycle in the chain is not taken.
\<close>

definition setPrototypeOf :: "rval obj \<Rightarrow> rval \<Rightarrow> thrown + (bool \<times> rval obj)" where
  "setPrototypeOf ob v =
     (if \<not> isObjectOrNull v then Inl GuestTypeError
      else if v = o_proto ob then Inr (True, ob)
      else if \<not> o_extensible ob then Inr (False, ob)
      else Inr (True, ob\<lparr>o_proto := v\<rparr>))"

fun sealDesc :: "'v desc \<Rightarrow> 'v desc" where
  "sealDesc (DataDesc v w e c) = DataDesc v w e False"
| "sealDesc (AccDesc g s e c) = AccDesc g s e False"

fun freezeDesc :: "'v desc \<Rightarrow> 'v desc" where
  "freezeDesc (DataDesc v w e c) = DataDesc v False e False"
| "freezeDesc (AccDesc g s e c) = AccDesc g s e False"

definition seal :: "('v, 'm) obj_scheme \<Rightarrow> ('v, 'm) obj_scheme" where
  "seal ob = ob\<lparr>o_props := map (\<lambda>(k, d). (k, sealDesc d)) (o_props ob), o_extensible := False\<rparr>"

definition freeze :: "('v, 'm) obj_scheme \<Rightarrow> ('v, 'm) obj_scheme" where
  "freeze ob = ob\<lparr>o_props := map (\<lambda>(k, d). (k, freezeDesc d)) (o_props ob), o_extensible := False\<rparr>"

definition applyLifecycle :: "meta \<Rightarrow> rval obj \<Rightarrow> rval obj" where
  "applyLifecycle m shadowTarget =
     (if m_isFrozen m then freeze shadowTarget
      else if m_isSealed m then seal shadowTarget
      else if \<not> m_isExtensible m then preventExtensions shadowTarget
      else shadowTarget)"

text \<open>
  \<^verbatim>\<open>RedStaticProxyHandler.initialize\<close> (lines 379 to 399) of wrapper \<open>p\<close>. The first
  statement replaces \<^verbatim>\<open>this.initialize\<close> by \<^verbatim>\<open>noop\<close>: the flag of the handler. A throw
  later in the body leaves the flag set.
\<close>

definition initialize :: "nat \<Rightarrow> state \<Rightarrow> addr \<Rightarrow> unit outcome" where
  "initialize n s p =
     (case handlerOf s p of
        RedStaticProxyHandler target m False \<Rightarrow>
          (let s1 = putHandler s p (RedStaticProxyHandler target m True)
           in case getRedValue n s1 (m_proto m) of
                (Inl x, s2) \<Rightarrow> (Inl x, s2)
              | (Inr redProto, s2) \<Rightarrow>
                  (case setPrototypeOf (shadowOf s2 p) redProto of
                     Inl x \<Rightarrow> (Inl x, s2)
                   | Inr (ok, sh) \<Rightarrow>
                       (case copyRedOwnDescriptors n (putShadow s2 p sh) p (m_descriptors m) of
                          (Inl x, s3) \<Rightarrow> (Inl x, s3)
                        | (Inr u, s3) \<Rightarrow>
                            (Inr (), putShadow s3 p (applyLifecycle m (shadowOf s3 p))))))
      | _ \<Rightarrow> (Inr (), s))"

section \<open>The error boundary\<close>

text \<open>
  What the membrane is given and what runs code that is not its own: the conversion
  \<^verbatim>\<open>blueEnv.getBlueValue\<close> of the broker, the two marshaling hooks, \<^verbatim>\<open>construct\<close> on a guest
  constructor, the reading of \<^verbatim>\<open>message\<close> and \<^verbatim>\<open>constructor\<close> from a thrown value that
  is neither \<^verbatim>\<open>null\<close> nor \<^verbatim>\<open>undefined\<close>, and the reflective calls on a host value that
  reach its accessors. Each may change the state. A failure of the first three is the
  value thrown; \<open>redConstruct\<close> answers \<open>None\<close> when the construction throws.
\<close>

record env =
  getBlueValue :: "state \<Rightarrow> rval \<Rightarrow> (bval + bval) \<times> state"
  blueApplyHook :: "state \<Rightarrow> addr \<Rightarrow> bval \<Rightarrow> bval \<Rightarrow> (bval + bval) \<times> state"
  blueConstructHook :: "state \<Rightarrow> addr \<Rightarrow> bval \<Rightarrow> bval \<Rightarrow> (bval + bval) \<times> state"
  redConstruct :: "state \<Rightarrow> rval \<Rightarrow> bval \<Rightarrow> rval option \<times> state"
  readFailure :: "state \<Rightarrow> bval \<Rightarrow> bval \<times> bval"
  hostGet :: "state \<Rightarrow> addr \<Rightarrow> pkey \<Rightarrow> bval \<Rightarrow> (bval + bval) \<times> state"
  hostSet :: "state \<Rightarrow> addr \<Rightarrow> pkey \<Rightarrow> bval \<Rightarrow> bval \<Rightarrow> (bval + bool) \<times> state"
  hostDeleteProperty :: "state \<Rightarrow> addr \<Rightarrow> pkey \<Rightarrow> (bval + bool) \<times> state"
  hostSetPrototypeOf :: "state \<Rightarrow> addr \<Rightarrow> bval \<Rightarrow> (bval + bool) \<times> state"
  hostDefineProperty :: "state \<Rightarrow> addr \<Rightarrow> pkey \<Rightarrow> bval pdesc \<Rightarrow> (bval + bool) \<times> state"

text \<open>
  Modelled from the spec: \<^verbatim>\<open>blueEnv.getRedRef\<close>, of the broker that is not among the sources:
  the guest counterpart of a host value in the identity map, \<^verbatim>\<open>undefined\<close> when there is
  none.
\<close>

definition getRedRef :: "state \<Rightarrow> bval \<Rightarrow> rval" where
  "getRedRef s v =
     (case v of
        BObj a \<Rightarrow> (case blueMap s a of None \<Rightarrow> RUndef | Some r \<Rightarrow> r)
      | _ \<Rightarrow> RUndef)"

fun isGuestObject :: "rval \<Rightarrow> bool" where
  "isGuestObject RUndef = False"
| "isGuestObject RNull = False"
| "isGuestObject (RPrim _) = False"
| "isGuestObject _ = True"

text \<open>
  The \<^verbatim>\<open>catch\<close> block that the two traps share (lines 307 to 325 and 338 to 356), up to
  its \<^verbatim>\<open>throw\<close>. Destructuring \<^verbatim>\<open>null\<close> or \<^verbatim>\<open>undefined\<close> throws a \<^verbatim>\<open>TypeError\<close> of the
  guest realm, outside the inner \<^verbatim>\<open>try\<close>. \<^verbatim>\<open>construct\<close> on a value that is no object
  throws, which the inner \<^verbatim>\<open>catch\<close> turns into the generic error.
\<close>

definition redErrorOf :: "env \<Rightarrow> state \<Rightarrow> bval \<Rightarrow> thrown \<times> state" where
  "redErrorOf env s e =
     (if e = BUndef \<or> e = BNull then (GuestTypeError, s)
      else (let (message, constructor) = readFailure env s e;
                redErrorConstructor = getRedRef s constructor
            in if \<not> isGuestObject redErrorConstructor then (GuestError message, s)
               else (case redConstruct env s redErrorConstructor message of
                       (Some redError, s1) \<Rightarrow> (GuestConstructed redError, s1)
                     | (None, s1) \<Rightarrow> (GuestError message, s1))))"

definition throwRedError :: "env \<Rightarrow> state \<Rightarrow> bval \<Rightarrow> 'a outcome" where
  "throwRedError env s e = (let (redError, s1) = redErrorOf env s e in (Inl redError, s1))"

text \<open>\<^verbatim>\<open>redProxyApplyTrap\<close> (lines 301 to 327).\<close>

definition redProxyApplyTrap ::
  "env \<Rightarrow> nat \<Rightarrow> state \<Rightarrow> addr \<Rightarrow> rval \<Rightarrow> rval \<Rightarrow> rval outcome" where
  "redProxyApplyTrap env n s blueTarget redThisArg redArgArray =
     (case getBlueValue env s redThisArg of
        (Inl e, s1) \<Rightarrow> throwRedError env s1 e
      | (Inr blueThisArg, s1) \<Rightarrow>
          (case getBlueValue env s1 redArgArray of
             (Inl e, s2) \<Rightarrow> throwRedError env s2 e
           | (Inr blueArgArray, s2) \<Rightarrow>
               (case blueApplyHook env s2 blueTarget blueThisArg blueArgArray of
                  (Inl e, s3) \<Rightarrow> throwRedError env s3 e
                | (Inr blue, s3) \<Rightarrow> getRedValue n s3 blue)))"

text \<open>\<^verbatim>\<open>redProxyConstructTrap\<close> (lines 329 to 358).\<close>

definition redProxyConstructTrap ::
  "env \<Rightarrow> nat \<Rightarrow> state \<Rightarrow> addr \<Rightarrow> rval \<Rightarrow> rval \<Rightarrow> rval outcome" where
  "redProxyConstructTrap env n s BlueCtor redArgArray redNewTarget =
     (if redNewTarget = RUndef then (Inl GuestTypeError, s)
      else (case getBlueValue env s redNewTarget of
              (Inl e, s1) \<Rightarrow> throwRedError env s1 e
            | (Inr blueNewTarget, s1) \<Rightarrow>
                (case getBlueValue env s1 redArgArray of
                   (Inl e, s2) \<Rightarrow> throwRedError env s2 e
                 | (Inr blueArgArray, s2) \<Rightarrow>
                     (case blueConstructHook env s2 BlueCtor blueArgArray blueNewTarget of
                        (Inl e, s3) \<Rightarrow> throwRedError env s3 e
                      | (Inr blue, s3) \<Rightarrow> getRedValue n s3 blue))))"

section \<open>The traps of the two handlers\<close>

text \<open>
  The fundamental operations that reach a wrapper, with their arguments, and what a trap
  answers. Where the operation on the shadow target leaves the shadow target (an accessor
  to call, the parent to ask, another receiver to define on), the answer names the step
  that follows.
\<close>

datatype operation =
    DoGet pkey rval
  | DoSet pkey rval rval
  | DoDeleteProperty pkey
  | DoApply rval rval
  | DoConstruct rval rval
  | DoHas pkey
  | DoOwnKeys
  | DoIsExtensible
  | DoGetOwnPropertyDescriptor pkey
  | DoGetPrototypeOf
  | DoSetPrototypeOf rval
  | DoPreventExtensions
  | DoDefineProperty pkey "rval pdesc"

datatype answer =
    AValue rval
  | ABool bool
  | AKeys "pkey list"
  | ADesc "rval desc option"
  | ACallGetter rval rval
  | ACallSetter rval rval rval
  | AGetFromParent rval pkey rval
  | ASetOnParent rval pkey rval rval
  | AHasInParent rval pkey
  | ADefineOnReceiver rval pkey rval
  | ACallShadowTarget

subsection \<open>Operations on a shadow target\<close>

definition ordinaryGet :: "rval obj \<Rightarrow> pkey \<Rightarrow> rval \<Rightarrow> answer" where
  "ordinaryGet sh key receiver =
     (case getOwnPropertyDescriptor sh key of
        None \<Rightarrow> if o_proto sh = RNull then AValue RUndef
                else AGetFromParent (o_proto sh) key receiver
      | Some (DataDesc v w e c) \<Rightarrow> AValue v
      | Some (AccDesc g st e c) \<Rightarrow> if g = RUndef then AValue RUndef else ACallGetter g receiver)"

text \<open>
  The last step of a write, on the receiver. When the receiver is the wrapper \<open>self\<close>
  itself, its own traps lead back to the shadow target: the descriptor is read there and
  the value defined there by \<^verbatim>\<open>Object.defineProperty\<close>, which throws when it cannot.
\<close>

definition setOnReceiver ::
  "addr \<Rightarrow> rval obj \<Rightarrow> pkey \<Rightarrow> rval \<Rightarrow> rval \<Rightarrow> (thrown + answer) \<times> rval obj" where
  "setOnReceiver self sh key v receiver =
     (if receiver = RObj self
      then (case getOwnPropertyDescriptor sh key of
              None \<Rightarrow>
                if o_extensible sh
                then (Inr (ABool True), snd (defineProperty sh key (DataDesc v True True True)))
                else (Inl GuestTypeError, sh)
            | Some (DataDesc old w e c) \<Rightarrow>
                if w then (Inr (ABool True), assignOwn sh key v) else (Inr (ABool False), sh)
            | Some (AccDesc g st e c) \<Rightarrow> (Inr (ABool False), sh))
      else if isGuestObject receiver then (Inr (ADefineOnReceiver receiver key v), sh)
      else (Inr (ABool False), sh))"

definition ordinarySet ::
  "addr \<Rightarrow> rval obj \<Rightarrow> pkey \<Rightarrow> rval \<Rightarrow> rval \<Rightarrow> (thrown + answer) \<times> rval obj" where
  "ordinarySet self sh key v receiver =
     (case getOwnPropertyDescriptor sh key of
        None \<Rightarrow> if o_proto sh = RNull then setOnReceiver self sh key v receiver
                else (Inr (ASetOnParent (o_proto sh) key v receiver), sh)
      | Some (DataDesc old w e c) \<Rightarrow>
          if w then setOnReceiver self sh key v receiver else (Inr (ABool False), sh)
      | Some (AccDesc g st e c) \<Rightarrow>
          if st = RUndef then (Inr (ABool False), sh)
          else (Inr (ACallSetter st receiver v), sh))"

definition deleteProperty :: "('v, 'm) obj_scheme \<Rightarrow> pkey \<Rightarrow> bool \<times> ('v, 'm) obj_scheme" where
  "deleteProperty ob k =
     (case getOwnPropertyDescriptor ob k of
        None \<Rightarrow> (True, ob)
      | Some d \<Rightarrow>
          if configurable d then (True, ob\<lparr>o_props := filter (\<lambda>(k', d'). k' \<noteq> k) (o_props ob)\<rparr>)
          else (False, ob))"

definition ordinaryHas :: "rval obj \<Rightarrow> pkey \<Rightarrow> answer" where
  "ordinaryHas sh key =
     (if getOwnPropertyDescriptor sh key \<noteq> None then ABool True
      else if o_proto sh = RNull then ABool False
      else AHasInParent (o_proto sh) key)"

definition ownKeys :: "('v, 'm) obj_scheme \<Rightarrow> pkey list" where
  "ownKeys ob = map fst (o_props ob)"

subsection \<open>RedStaticProxyHandler\<close>

definition targetOf :: "state \<Rightarrow> addr \<Rightarrow> addr" where
  "targetOf s p =
     (case handlerOf s p of
        RedStaticProxyHandler target m i \<Rightarrow> target
      | RedDynamicProxyHandler target \<Rightarrow> target
      | _ \<Rightarrow> 0)"

definition afterInitialize :: "nat \<Rightarrow> state \<Rightarrow> addr \<Rightarrow> (state \<Rightarrow> 'a outcome) \<Rightarrow> 'a outcome" where
  "afterInitialize n s p rest =
     (case initialize n s p of
        (Inl x, s1) \<Rightarrow> (Inl x, s1)
      | (Inr u, s1) \<Rightarrow> rest s1)"

definition asValue :: "rval outcome \<Rightarrow> answer outcome" where
  "asValue r = (case r of (Inl x, s) \<Rightarrow> (Inl x, s) | (Inr v, s) \<Rightarrow> (Inr (AValue v), s))"

text \<open>
  The traps of \<^verbatim>\<open>RedStaticProxyHandler\<close> (lines 401 to 463) on wrapper \<open>p\<close>: each one
  calls \<^verbatim>\<open>this.initialize(shadowTarget)\<close> and then works on the shadow target, but for
  \<^verbatim>\<open>apply\<close> and \<^verbatim>\<open>construct\<close>, which read the target before and go to the host.
\<close>

fun staticTrap :: "env \<Rightarrow> nat \<Rightarrow> state \<Rightarrow> addr \<Rightarrow> operation \<Rightarrow> answer outcome" where
  "staticTrap env n s p (DoGet key receiver) =
     afterInitialize n s p (\<lambda>s1. (Inr (ordinaryGet (shadowOf s1 p) key receiver), s1))"
| "staticTrap env n s p (DoSet key v receiver) =
     afterInitialize n s p (\<lambda>s1.
       (case ordinarySet p (shadowOf s1 p) key v receiver of
          (r, sh) \<Rightarrow> (r, putShadow s1 p sh)))"
| "staticTrap env n s p (DoDeleteProperty key) =
     afterInitialize n s p (\<lambda>s1.
       (case deleteProperty (shadowOf s1 p) key of
          (b, sh) \<Rightarrow> (Inr (ABool b), putShadow s1 p sh)))"
| "staticTrap env n s p (DoApply redThisArg redArgArray) =
     (let blueTarget = targetOf s p
      in afterInitialize n s p (\<lambda>s1.
           asValue (redProxyApplyTrap env n s1 blueTarget redThisArg redArgArray)))"
| "staticTrap env n s p (DoConstruct redArgArray redNewTarget) =
     (let BlueCtor = targetOf s p
      in afterInitialize n s p (\<lambda>s1.
           asValue (redProxyConstructTrap env n s1 BlueCtor redArgArray redNewTarget)))"
| "staticTrap env n s p (DoHas key) =
     afterInitialize n s p (\<lambda>s1. (Inr (ordinaryHas (shadowOf s1 p) key), s1))"
| "staticTrap env n s p DoOwnKeys =
     afterInitialize n s p (\<lambda>s1. (Inr (AKeys (ownKeys (shadowOf s1 p))), s1))"
| "staticTrap env n s p DoIsExtensible =
     afterInitialize n s p (\<lambda>s1. (Inr (ABool (o_extensible (shadowOf s1 p))), s1))"
| "staticTrap env n s p (DoGetOwnPropertyDescriptor key) =
     afterInitialize n s p (\<lambda>s1.
       (Inr (ADesc (getOwnPropertyDescriptor (shadowOf s1 p) key)), s1))"
| "staticTrap env n s p DoGetPrototypeOf =
     afterInitialize n s p (\<lambda>s1. (Inr (AValue (o_proto (shadowOf s1 p))), s1))"
| "staticTrap env n s p (DoSetPrototypeOf prototype) =
     afterInitialize n s p (\<lambda>s1.
       (case setPrototypeOf (shadowOf s1 p) prototype of
          Inl x \<Rightarrow> (Inl x, s1)
        | Inr (b, sh) \<Rightarrow> (Inr (ABool b), putShadow s1 p sh)))"
| "staticTrap env n s p DoPreventExtensions =
     afterInitialize n s p (\<lambda>s1.
       (Inr (ABool True), putShadow s1 p (preventExtensions (shadowOf s1 p))))"
| "staticTrap env n s p (DoDefineProperty key redPartialDesc) =
     afterInitialize n s p (\<lambda>s1.
       (if isAccessorPartial redPartialDesc \<and> isDataPartial redPartialDesc
        then (Inl GuestTypeError, s1)
        else (case definePropertyPartial RUndef (shadowOf s1 p) key redPartialDesc of
                (True, sh) \<Rightarrow> (Inr (ABool True), putShadow s1 p sh)
              | (False, sh) \<Rightarrow> (Inl GuestTypeError, s1))))"

subsection \<open>RedDynamicProxyHandler\<close>

definition hostIsExtensible :: "hobj \<Rightarrow> thrown + bool" where
  "hostIsExtensible ob = (if throwsOn ob OpIsExtensible then Inl HostFailure else Inr (o_extensible ob))"

text \<open>
  \<^verbatim>\<open>Reflect.preventExtensions\<close> on the host value: an ordinary object becomes
  non-extensible and answers \<^verbatim>\<open>true\<close>; a host proxy may answer \<^verbatim>\<open>false\<close> and change nothing.
\<close>

definition hostPreventExtensions :: "state \<Rightarrow> addr \<Rightarrow> bool outcome" where
  "hostPreventExtensions s a =
     (if throwsOn (blueHeap s a) OpPreventExtensions then (Inl HostFailure, s)
      else if h_rejectsPreventExtensions (blueHeap s a) then (Inr False, s)
      else (Inr True, s\<lparr>blueHeap := (blueHeap s)(a := (blueHeap s a)\<lparr>o_extensible := False\<rparr>)\<rparr>))"

definition fromHost :: "(bval + 'a) \<times> state \<Rightarrow> 'a outcome" where
  "fromHost r = (case r of (Inl e, s) \<Rightarrow> (Inl (HostThrown e), s) | (Inr v, s) \<Rightarrow> (Inr v, s))"

definition convertField :: "env \<Rightarrow> state \<Rightarrow> rval option \<Rightarrow> (bval option) outcome" where
  "convertField env s f =
     (case f of
        None \<Rightarrow> (Inr None, s)
      | Some v \<Rightarrow> (case fromHost (getBlueValue env s v) of
                     (Inl x, s1) \<Rightarrow> (Inl x, s1)
                   | (Inr b, s1) \<Rightarrow> (Inr (Some b), s1)))"

text \<open>\<^verbatim>\<open>getBluePartialDescriptor\<close> (lines 285 to 299): \<^verbatim>\<open>value\<close>, \<^verbatim>\<open>set\<close>, then \<^verbatim>\<open>get\<close>.\<close>

definition getBluePartialDescriptor :: "env \<Rightarrow> state \<Rightarrow> rval pdesc \<Rightarrow> (bval pdesc) outcome" where
  "getBluePartialDescriptor env s redPartialDesc =
     (case convertField env s (p_value redPartialDesc) of
        (Inl x, s1) \<Rightarrow> (Inl x, s1)
      | (Inr bv, s1) \<Rightarrow>
          (case convertField env s1 (p_set redPartialDesc) of
             (Inl x, s2) \<Rightarrow> (Inl x, s2)
           | (Inr bs, s2) \<Rightarrow>
               (case convertField env s2 (p_get redPartialDesc) of
                  (Inl x, s3) \<Rightarrow> (Inl x, s3)
                | (Inr bg, s3) \<Rightarrow>
                    (Inr \<lparr>p_value = bv, p_get = bg, p_set = bs,
                          p_writable = p_writable redPartialDesc,
                          p_enumerable = p_enumerable redPartialDesc,
                          p_configurable = p_configurable redPartialDesc\<rparr>, s3))))"

definition asBool :: "bool outcome \<Rightarrow> answer outcome" where
  "asBool r = (case r of (Inl x, s) \<Rightarrow> (Inl x, s) | (Inr b, s) \<Rightarrow> (Inr (ABool b), s))"

definition lockThenAnswer :: "nat \<Rightarrow> state \<Rightarrow> addr \<Rightarrow> addr \<Rightarrow> bool \<Rightarrow> answer outcome" where
  "lockThenAnswer n s p target b =
     (case lockShadowTarget n s p target of
        (Inl x, s1) \<Rightarrow> (Inl x, s1)
      | (Inr u, s1) \<Rightarrow> (Inr (ABool b), s1))"

text \<open>
  The traps of \<^verbatim>\<open>RedDynamicProxyHandler\<close> (lines 482 to 570) on wrapper \<open>p\<close>. Outside
  \<^verbatim>\<open>apply\<close> and \<^verbatim>\<open>construct\<close> nothing catches what the host throws.
\<close>

fun dynamicTrap :: "env \<Rightarrow> nat \<Rightarrow> state \<Rightarrow> addr \<Rightarrow> operation \<Rightarrow> answer outcome" where
  "dynamicTrap env n s p (DoGet key receiver) =
     (case fromHost (getBlueValue env s receiver) of
        (Inl x, s1) \<Rightarrow> (Inl x, s1)
      | (Inr blueReceiver, s1) \<Rightarrow>
          (case fromHost (hostGet env s1 (targetOf s p) key blueReceiver) of
             (Inl x, s2) \<Rightarrow> (Inl x, s2)
           | (Inr blue, s2) \<Rightarrow> asValue (getRedValue n s2 blue)))"
| "dynamicTrap env n s p (DoSet key v receiver) =
     (case fromHost (getBlueValue env s v) of
        (Inl x, s1) \<Rightarrow> (Inl x, s1)
      | (Inr blueValue, s1) \<Rightarrow>
          (case fromHost (getBlueValue env s1 receiver) of
             (Inl x, s2) \<Rightarrow> (Inl x, s2)
           | (Inr blueReceiver, s2) \<Rightarrow>
               asBool (fromHost (hostSet env s2 (targetOf s p) key blueValue blueReceiver))))"
| "dynamicTrap env n s p (DoDeleteProperty key) =
     asBool (fromHost (hostDeleteProperty env s (targetOf s p) key))"
| "dynamicTrap env n s p (DoApply redThisArg redArgArray) =
     asValue (redProxyApplyTrap env n s (targetOf s p) redThisArg redArgArray)"
| "dynamicTrap env n s p (DoConstruct redArgArray redNewTarget) =
     asValue (redProxyConstructTrap env n s (targetOf s p) redArgArray redNewTarget)"
| "dynamicTrap env n s p (DoHas key) =
     (case hasProperty n (blueHeap s) (targetOf s p) key of
        Inl x \<Rightarrow> (Inl x, s)
      | Inr b \<Rightarrow> (Inr (ABool b), s))"
| "dynamicTrap env n s p DoOwnKeys =
     (if throwsOn (blueHeap s (targetOf s p)) OpOwnKeys then (Inl HostFailure, s)
      else (Inr (AKeys (map fst (hostOwnProps (blueHeap s (targetOf s p))))), s))"
| "dynamicTrap env n s p DoIsExtensible =
     (if \<not> o_extensible (shadowOf s p) then (Inr (ABool False), s)
      else (let target = targetOf s p
            in case hostIsExtensible (blueHeap s target) of
                 Inl x \<Rightarrow> (Inl x, s)
               | Inr False \<Rightarrow> lockThenAnswer n s p target False
               | Inr True \<Rightarrow> (Inr (ABool True), s)))"
| "dynamicTrap env n s p (DoGetOwnPropertyDescriptor key) =
     (let target = targetOf s p
      in if throwsOn (blueHeap s target) OpGetOwnPropertyDescriptor then (Inl HostFailure, s)
         else (case map_of (hostOwnProps (blueHeap s target)) key of
                 None \<Rightarrow> (Inr (ADesc None), s)
               | Some blueDesc \<Rightarrow>
                   (case (if \<not> configurable blueDesc
                          then copyBlueDescriptorIntoShadowTarget n s p target key
                          else (Inr (), s)) of
                      (Inl x, s1) \<Rightarrow> (Inl x, s1)
                    | (Inr u, s1) \<Rightarrow>
                        (case getRedDescriptor n s1 blueDesc of
                           (Inl x, s2) \<Rightarrow> (Inl x, s2)
                         | (Inr redDesc, s2) \<Rightarrow> (Inr (ADesc (Some redDesc)), s2)))))"
| "dynamicTrap env n s p DoGetPrototypeOf =
     (if throwsOn (blueHeap s (targetOf s p)) OpGetPrototypeOf then (Inl HostFailure, s)
      else asValue (getRedValue n s (o_proto (blueHeap s (targetOf s p)))))"
| "dynamicTrap env n s p (DoSetPrototypeOf prototype) =
     (case fromHost (getBlueValue env s prototype) of
        (Inl x, s1) \<Rightarrow> (Inl x, s1)
      | (Inr bluePrototype, s1) \<Rightarrow>
          asBool (fromHost (hostSetPrototypeOf env s1 (targetOf s p) bluePrototype)))"
| "dynamicTrap env n s p DoPreventExtensions =
     (let target = targetOf s p
      in if o_extensible (shadowOf s p)
         then (case hostPreventExtensions s target of
                 (Inl x, s1) \<Rightarrow> (Inl x, s1)
               | (Inr False, s1) \<Rightarrow>
                   (case hostIsExtensible (blueHeap s1 target) of
                      Inl x \<Rightarrow> (Inl x, s1)
                    | Inr False \<Rightarrow> lockThenAnswer n s1 p target False
                    | Inr True \<Rightarrow> (Inr (ABool False), s1))
               | (Inr True, s1) \<Rightarrow> lockThenAnswer n s1 p target True)
         else (Inr (ABool True), s))"
| "dynamicTrap env n s p (DoDefineProperty key redPartialDesc) =
     (let target = targetOf s p
      in case getBluePartialDescriptor env s redPartialDesc of
           (Inl x, s1) \<Rightarrow> (Inl x, s1)
         | (Inr blueDesc, s1) \<Rightarrow>
             (case fromHost (hostDefineProperty env s1 target key blueDesc) of
                (Inl x, s2) \<Rightarrow> (Inl x, s2)
              | (Inr ok, s2) \<Rightarrow>
                  if ok \<and> p_configurable blueDesc = Some False
                  then (case copyBlueDescriptorIntoShadowTarget n s2 p target key of
                          (Inl x, s3) \<Rightarrow> (Inl x, s3)
                        | (Inr u, s3) \<Rightarrow> (Inr (ABool True), s3))
                  else (Inr (ABool True), s2)))"

subsection \<open>A wrapper as guest code meets it\<close>

text \<open>
  A proxy without traps carries every operation out on its target; \<^verbatim>\<open>apply\<close> and
  \<^verbatim>\<open>construct\<close> then call the shadow target itself.
\<close>

fun noTrap :: "state \<Rightarrow> addr \<Rightarrow> operation \<Rightarrow> answer outcome" where
  "noTrap s p (DoGet key receiver) = (Inr (ordinaryGet (shadowOf s p) key receiver), s)"
| "noTrap s p (DoSet key v receiver) =
     (case ordinarySet p (shadowOf s p) key v receiver of (r, sh) \<Rightarrow> (r, putShadow s p sh))"
| "noTrap s p (DoDeleteProperty key) =
     (case deleteProperty (shadowOf s p) key of (b, sh) \<Rightarrow> (Inr (ABool b), putShadow s p sh))"
| "noTrap s p (DoApply redThisArg redArgArray) = (Inr ACallShadowTarget, s)"
| "noTrap s p (DoConstruct redArgArray redNewTarget) = (Inr ACallShadowTarget, s)"
| "noTrap s p (DoHas key) = (Inr (ordinaryHas (shadowOf s p) key), s)"
| "noTrap s p DoOwnKeys = (Inr (AKeys (ownKeys (shadowOf s p))), s)"
| "noTrap s p DoIsExtensible = (Inr (ABool (o_extensible (shadowOf s p))), s)"
| "noTrap s p (DoGetOwnPropertyDescriptor key) =
     (Inr (ADesc (getOwnPropertyDescriptor (shadowOf s p) key)), s)"
| "noTrap s p DoGetPrototypeOf = (Inr (AValue (o_proto (shadowOf s p))), s)"
| "noTrap s p (DoSetPrototypeOf prototype) =
     (case setPrototypeOf (shadowOf s p) prototype of
        Inl x \<Rightarrow> (Inl x, s)
      | Inr (b, sh) \<Rightarrow> (Inr (ABool b), putShadow s p sh))"
| "noTrap s p DoPreventExtensions =
     (Inr (ABool True), putShadow s p (preventExtensions (shadowOf s p)))"
| "noTrap s p (DoDefineProperty key redPartialDesc) =
     (if isAccessorPartial redPartialDesc \<and> isDataPartial redPartialDesc
      then (Inl GuestTypeError, s)
      else (case definePropertyPartial RUndef (shadowOf s p) key redPartialDesc of
              (b, sh) \<Rightarrow> (Inr (ABool b), putShadow s p sh)))"

text \<open>
  An operation of guest code on the wrapper at \<open>p\<close>: a revoked proxy throws a \<^verbatim>\<open>TypeError\<close>
  on every operation, any other proxy calls the trap of its handler.
\<close>

definition proxyOperation :: "env \<Rightarrow> nat \<Rightarrow> state \<Rightarrow> addr \<Rightarrow> operation \<Rightarrow> answer outcome" where
  "proxyOperation env n s p op =
     (case handlerOf s p of
        RevokedHandler \<Rightarrow> (Inl GuestTypeError, s)
      | EmptyHandler \<Rightarrow> noTrap s p op
      | RedStaticProxyHandler target m i \<Rightarrow> staticTrap env n s p op
      | RedDynamicProxyHandler target \<Rightarrow> dynamicTrap env n s p op)"

section \<open>Functions used to state the properties\<close>

text \<open>A descriptor with its stored value replaced, where it is a writable data descriptor.\<close>

fun withValue :: "'v \<Rightarrow> 'v desc \<Rightarrow> 'v desc" where
  "withValue v (DataDesc old w e c) = (if w then DataDesc v w e c else DataDesc old w e c)"
| "withValue v (AccDesc g s e c) = AccDesc g s e c"

text \<open>
  A step of the metadata extraction throws: one of the calls that \<^verbatim>\<open>getTargetMeta\<close> reaches,
  in its order.
\<close>

definition extractionFails :: "hobj \<Rightarrow> bool" where
  "extractionFails ob =
     (throwsOn ob OpGetPrototypeOf \<or> throwsOn ob OpGetOwnPropertyDescriptors
      \<or> throwsOn ob OpIsFrozen
      \<or> (\<not> isFrozen ob \<and> throwsOn ob OpIsSealed)
      \<or> (\<not> isFrozen ob \<and> \<not> isSealed ob \<and> throwsOn ob OpIsExtensible)
      \<or> throwsOn ob OpIsArray)"

text \<open>A sequence of operations of guest code on one wrapper, with the outcome of each.\<close>

fun performAll ::
  "env \<Rightarrow> nat \<Rightarrow> state \<Rightarrow> addr \<Rightarrow> operation list \<Rightarrow> (thrown + answer) list \<times> state" where
  "performAll env n s p [] = ([], s)"
| "performAll env n s p (op # ops) =
     (case proxyOperation env n s p op of
        (r, s1) \<Rightarrow> (case performAll env n s1 p ops of (rs, s2) \<Rightarrow> (r # rs, s2)))"




text \<open>
  What a conversion leaves alone: the host heap, the distortions, and every guest object
  that existed before.
\<close>

definition frame :: "state \<Rightarrow> state \<Rightarrow> bool" where
  "frame s s' = (blueHeap s' = blueHeap s \<and> distortionMap s' = distortionMap s
     \<and> nextRed s \<le> nextRed s' \<and> (\<forall>q < nextRed s. redHeap s' q = redHeap s q))"

text \<open>What an operation on the shadow target of wrapper \<open>p\<close> leaves alone.\<close>

definition keeps :: "addr \<Rightarrow> state \<Rightarrow> state \<Rightarrow> bool" where
  "keeps p s s' = (blueHeap s' = blueHeap s \<and> distortionMap s' = distortionMap s
     \<and> nextRed s \<le> nextRed s' \<and> handlerOf s' p = handlerOf s p
     \<and> (\<forall>q < nextRed s. q \<noteq> p \<longrightarrow> redHeap s' q = redHeap s q))"



text \<open>
  A host value that \<^verbatim>\<open>getRedValue\<close> treats as an array, and a host value whose nested arrays
  are at most \<open>n\<close> deep, so that a stack of \<open>n\<close> is enough to convert it. An array that
  contains itself fits no stack.
\<close>

definition isHostArray :: "hobj \<Rightarrow> bool" where
  "isHostArray ob = (o_typeof ob = TyObject \<and> \<not> throwsOn ob OpIsArray \<and> o_array ob)"

fun fits :: "nat \<Rightarrow> (addr \<Rightarrow> hobj) \<Rightarrow> bval \<Rightarrow> bool" where
  "fits n heap (BObj a) =
     (if isHostArray (heap a)
      then (case n of 0 \<Rightarrow> False | Suc m \<Rightarrow> list_all (fits m heap) (o_elems (heap a)))
      else True)"
| "fits n heap v = True"

text \<open>
  The lock-down walk over a host value completes: the own keys and the descriptors can be
  read, and every stored value fits the stack.
\<close>

fun descFits :: "nat \<Rightarrow> (addr \<Rightarrow> hobj) \<Rightarrow> bval desc \<Rightarrow> bool" where
  "descFits n heap (DataDesc v w e c) = fits n heap v"
| "descFits n heap (AccDesc g s e c) = True"

definition lockable :: "nat \<Rightarrow> state \<Rightarrow> addr \<Rightarrow> bool" where
  "lockable n s t =
     (\<not> throwsOn (blueHeap s t) OpOwnKeys \<and> \<not> throwsOn (blueHeap s t) OpGetOwnPropertyDescriptor
      \<and> list_all (\<lambda>(k, d). descFits n (blueHeap s) d) (hostOwnProps (blueHeap s t)))"





subsection \<open>Example states\<close>

definition plainHost :: hobj where
  "plainHost =
     \<lparr>o_typeof = TyObject, o_array = False, o_elems = [], o_proto = BNull, o_props = [],
      o_extensible = True, h_throws = [], h_rejectsPreventExtensions = False\<rparr>"

definition revokedHost :: hobj where
  "revokedHost =
     plainHost\<lparr>h_throws := [OpGetPrototypeOf, OpGetOwnPropertyDescriptors, OpIsFrozen,
       OpIsSealed, OpIsExtensible, OpIsArray, OpHas, OpGetOwnPropertyDescriptor, OpOwnKeys,
       OpPreventExtensions]\<rparr>"

definition emptyState :: state where
  "emptyState =
     \<lparr>blueHeap = (\<lambda>a. plainHost), redHeap = (\<lambda>a. None), blueMap = (\<lambda>a. None),
      redMap = (\<lambda>a. None), distortionMap = (\<lambda>a. None), nextRed = 0\<rparr>"

definition withHost :: "addr \<Rightarrow> hobj \<Rightarrow> state \<Rightarrow> state" where
  "withHost a ob s = s\<lparr>blueHeap := (blueHeap s)(a := ob)\<rparr>"

text \<open>
  An environment whose hooks return \<^verbatim>\<open>undefined\<close>, and one whose hooks throw a given value,
  from which the message \<open>m\<close> and the constructor \<open>c\<close> are read.
\<close>

definition quietEnv :: env where
  "quietEnv =
     \<lparr>getBlueValue = (\<lambda>s r. (Inr BUndef, s)),
      blueApplyHook = (\<lambda>s t a b. (Inr BUndef, s)),
      blueConstructHook = (\<lambda>s t a b. (Inr BUndef, s)),
      redConstruct = (\<lambda>s c m. (None, s)),
      readFailure = (\<lambda>s e. (BUndef, BUndef)),
      hostGet = (\<lambda>s t k r. (Inr BUndef, s)),
      hostSet = (\<lambda>s t k v r. (Inr True, s)),
      hostDeleteProperty = (\<lambda>s t k. (Inr True, s)),
      hostSetPrototypeOf = (\<lambda>s t v. (Inr True, s)),
      hostDefineProperty = (\<lambda>s t k d. (Inr True, s))\<rparr>"


text \<open>
  The host object \<^verbatim>\<open>{x: v}\<close>; the state after \<^verbatim>\<open>{x: 1}\<close> at address 1 was given to
  \<^verbatim>\<open>getRedValue\<close>, and the metadata captured then.
\<close>

definition hostX :: "int \<Rightarrow> hobj" where
  "hostX v = plainHost\<lparr>o_props := [(KStr ''x'', DataDesc (BPrim (PNum v)) True True True)]\<rparr>"



text \<open>
  A host object that carries the marker of the dynamic handler, extensible or not, with a
  \<^verbatim>\<open>preventExtensions\<close> that works or that answers \<^verbatim>\<open>false\<close>; the state after it was given
  to \<^verbatim>\<open>getRedValue\<close>; and the state after the wrapper of the non-extensible one was then
  asked whether it is extensible.
\<close>

definition hostLive :: "bool \<Rightarrow> bool \<Rightarrow> hobj" where
  "hostLive extensible rejects =
     plainHost\<lparr>o_props := [(LockerLiveValueMarkerSymbol, DataDesc (BPrim (PBool True)) True False True),
                            (KStr ''y'', DataDesc (BPrim (PNum 1)) True True True)],
               o_extensible := extensible, h_rejectsPreventExtensions := rejects\<rparr>"

definition wrappedLive :: "bool \<Rightarrow> bool \<Rightarrow> state" where
  "wrappedLive extensible rejects =
     snd (getRedValue 0 (withHost 1 (hostLive extensible rejects) emptyState) (BObj 1))"

definition lockedLive :: "bool \<Rightarrow> state" where
  "lockedLive rejects = snd (dynamicTrap quietEnv 0 (wrappedLive False rejects) 0 DoIsExtensible)"



section \<open>What a conversion leaves alone\<close>

lemma frame_refl: "frame s s"
  by (simp add: frame_def)

lemma frame_trans: "frame s s1 \<Longrightarrow> frame s1 s2 \<Longrightarrow> frame s s2"
  by (auto simp: frame_def)

lemma frame_alloc: "alloc s ob = (p, s') \<Longrightarrow> frame s s' \<and> p = nextRed s \<and> nextRed s' = Suc p
    \<and> redHeap s' p = Some ob \<and> blueMap s' = blueMap s \<and> redMap s' = redMap s"
  by (auto simp: alloc_def frame_def)

lemma frame_createRedShadowTarget:
  "createRedShadowTarget n s blue = (sh, s') \<Longrightarrow> frame s s' \<and> blueMap s' = blueMap s \<and> redMap s' = redMap s"
  by (auto simp: createRedShadowTarget_def alloc_def frame_def Let_def
      split: if_splits sum.splits bool.splits)

lemma frame_revoke: "p < nextRed s \<Longrightarrow> q < nextRed s \<Longrightarrow> q \<noteq> p \<Longrightarrow> redHeap (revoke s p) q = redHeap s q"
  by (auto simp: revoke_def split: option.splits robj.splits)

lemma revoke_fields: "blueHeap (revoke s p) = blueHeap s \<and> distortionMap (revoke s p) = distortionMap s
  \<and> nextRed (revoke s p) = nextRed s \<and> blueMap (revoke s p) = blueMap s \<and> redMap (revoke s p) = redMap s"
  by (auto simp: revoke_def split: option.splits robj.splits handler.splits)

lemma revoke_other: "q \<noteq> p \<Longrightarrow> redHeap (revoke s p) q = redHeap s q"
  by (auto simp: revoke_def split: option.splits robj.splits)

lemma frame_getRevokedRedProxy:
  assumes "getRevokedRedProxy n s blue = (r, s')"
  shows "frame s s'"
proof -
  obtain sh s1 where c: "createRedShadowTarget n s blue = (sh, s1)"
    by (cases "createRedShadowTarget n s blue")
  from frame_createRedShadowTarget [OF c] have f1: "frame s s1" by simp
  have "frame s1 s'"
    using assms c
    by (auto simp: getRevokedRedProxy_def alloc_def setRefMapEntries_def frame_def revoke_fields revoke_other)
  with f1 show ?thesis by (rule frame_trans)
qed

lemma frame_createRedProxy:
  assumes "createRedProxy n s blue = (r, s')"
  shows "frame s s'"
proof (cases "m_isBroken (getTargetMeta (blueHeap s) (getDistortedValue s blue))")
  case True
  obtain r1 s1 where g: "getRevokedRedProxy n s (getDistortedValue s blue) = (r1, s1)"
    by (cases "getRevokedRedProxy n s (getDistortedValue s blue)")
  from frame_getRevokedRedProxy [OF g] have "frame s s1" .
  moreover have "frame s1 s'" using assms True g
    by (auto simp: createRedProxy_def Let_def setRefMapEntries_def frame_def split: sum.splits)
  ultimately show ?thesis by (rule frame_trans)
next
  case False
  obtain sh s1 where c: "createRedShadowTarget n s (getDistortedValue s blue) = (sh, s1)"
    by (cases "createRedShadowTarget n s (getDistortedValue s blue)")
  from frame_createRedShadowTarget [OF c] have "frame s s1" by simp
  moreover have "frame s1 s'" using assms False c
    by (auto simp: createRedProxy_def Let_def setRefMapEntries_def frame_def alloc_def split: sum.splits)
  ultimately show ?thesis by (rule frame_trans)
qed

lemma frame_getRedFunction: "getRedFunction n s a = (r, s') \<Longrightarrow> frame s s'"
  by (auto simp: getRedFunction_def frame_refl frame_createRedProxy split: option.splits if_splits)

lemma frame_getRedValue:
  "getRedValue n s v = (r, s') \<Longrightarrow> frame s s'"
  "getRedElements n s vs = (rs, s'') \<Longrightarrow> frame s s''"
proof (induction n s v and n s vs arbitrary: r s' and rs s'' rule: getRedValue_getRedElements.induct)
  case (4 n s a)
  show ?case
  proof (cases "o_typeof (blueHeap s a) \<noteq> TyUndefined \<and> o_typeof (blueHeap s a) \<noteq> TyFunction
      \<and> \<not> throwsOn (blueHeap s a) OpIsArray \<and> o_array (blueHeap s a)")
    case True
    show ?thesis
    proof (cases n)
      case 0
      with True "4.prems" show ?thesis by (auto simp: frame_refl)
    next
      case (Suc m)
      obtain x s1 where e: "getRedElements m s (o_elems (blueHeap s a)) = (x, s1)"
        by (cases "getRedElements m s (o_elems (blueHeap s a))")
      have f1: "frame s s1" using "4.IH" Suc e True by auto
      have "frame s1 s'" using "4.prems" True Suc e
        by (auto simp: frame_def alloc_def split: sum.splits)
      with f1 show ?thesis by (rule frame_trans)
    qed
  next
    case False
    with "4.prems" show ?thesis
      by (auto simp: frame_refl frame_createRedProxy frame_getRedFunction
          split: if_splits option.splits)
  qed
next
  case (6 n s blue rest)
  obtain x s1 where a: "getRedValue n s blue = (x, s1)" by (cases "getRedValue n s blue")
  have f1: "frame s s1" using "6.IH"(1) a by auto
  show ?case
  proof (cases x)
    case (Inl e)
    with "6.prems" a f1 show ?thesis by simp
  next
    case (Inr v)
    obtain y s2 where b: "getRedElements n s1 rest = (y, s2)" by (cases "getRedElements n s1 rest")
    have "frame s1 s2" using "6.IH"(2) a b Inr by auto
    with f1 have "frame s s2" by (rule frame_trans)
    with "6.prems" a b Inr show ?thesis by (auto split: sum.splits)
  qed
qed (auto simp: frame_refl)

section \<open>The shadow target of one wrapper\<close>

lemma frame_cell: "frame s s' \<Longrightarrow> p < nextRed s \<Longrightarrow> redHeap s' p = redHeap s p"
  by (simp add: frame_def)

lemma frame_wrapper:
  "frame s s' \<Longrightarrow> p < nextRed s \<Longrightarrow> handlerOf s' p = handlerOf s p \<and> shadowOf s' p = shadowOf s p"
  by (simp add: frame_def handlerOf_def shadowOf_def)

lemma frame_getRedAccessor: "getRedAccessor n s f = (r, s') \<Longrightarrow> frame s s'"
  by (auto simp: getRedAccessor_def frame_refl frame_getRedFunction split: bval.splits if_splits)

lemma frame_getRedDescriptor: "getRedDescriptor n s d = (r, s') \<Longrightarrow> frame s s'"
proof (cases d)
  case (DataDesc v w e c)
  obtain x s1 where a: "(case v of BObj a \<Rightarrow> if isFunction s v then getRedFunction n s a
                        else getRedValue n s v | _ \<Rightarrow> getRedValue n s v) = (x, s1)"
    by (cases "(case v of BObj a \<Rightarrow> if isFunction s v then getRedFunction n s a
                        else getRedValue n s v | _ \<Rightarrow> getRedValue n s v)")
  then have "frame s s1"
    by (cases v) (auto simp del: getRedValue.simps
        intro: frame_getRedFunction frame_getRedValue(1) split: if_splits)
  moreover assume "getRedDescriptor n s d = (r, s')"
  ultimately show ?thesis using DataDesc a by (auto split: sum.splits)
next
  case (AccDesc g st e c)
  assume p: "getRedDescriptor n s d = (r, s')"
  obtain x s1 where a: "getRedAccessor n s st = (x, s1)" by (cases "getRedAccessor n s st")
  have f1: "frame s s1" using frame_getRedAccessor [OF a] .
  show ?thesis
  proof (cases x)
    case (Inl err)
    with p a AccDesc f1 show ?thesis by simp
  next
    case (Inr redSet)
    obtain y s2 where b: "getRedAccessor n s1 g = (y, s2)" by (cases "getRedAccessor n s1 g")
    have "frame s1 s2" using frame_getRedAccessor [OF b] .
    with f1 have "frame s s2" by (rule frame_trans)
    with p a b AccDesc Inr show ?thesis by (auto split: sum.splits)
  qed
qed



lemma keeps_refl: "keeps p s s"
  by (simp add: keeps_def)

lemma keeps_trans: "keeps p s s1 \<Longrightarrow> keeps p s1 s2 \<Longrightarrow> keeps p s s2"
  by (auto simp: keeps_def)

lemma frame_keeps: "frame s s' \<Longrightarrow> p < nextRed s \<Longrightarrow> keeps p s s'"
  by (auto simp: frame_def keeps_def handlerOf_def)

lemma keeps_putShadow: "keeps p s (putShadow s p sh)"
  by (auto simp: keeps_def putShadow_def handlerOf_def)

lemma putShadow_simps:
  "shadowOf (putShadow s p sh) p = sh" "handlerOf (putShadow s p sh) p = handlerOf s p"
  "nextRed (putShadow s p sh) = nextRed s" "blueHeap (putShadow s p sh) = blueHeap s"
  "blueMap (putShadow s p sh) = blueMap s" "distortionMap (putShadow s p sh) = distortionMap s"
  by (auto simp: putShadow_def shadowOf_def handlerOf_def)








lemmas ex_defs = withHost_def hostX_def plainHost_def emptyState_def getRedFunction_def
  createRedProxy_def getDistortedValue_def getTargetMeta_def probedMeta_def brokenMeta_def
  throwsOn_def isFrozen_def isSealed_def hostOwnProps_def createRedShadowTarget_def
  LockerLiveValueMarkerSymbol_def alloc_def setRefMapEntries_def Let_def
  handlerOf_def shadowOf_def putShadow_def putHandler_def objectShadow_def


lemma wrappedX_result:
  "fst (getRedValue 0 (withHost 1 (hostX 1) emptyState) (BObj 1)) = Inr (RObj 0)"
  by (simp add: ex_defs)


section \<open>Conversions that return\<close>

lemma createRedProxy_returns:
  "\<exists>p s'. createRedProxy n s a = (Inr (RObj p), s')
     \<and> blueMap s' = (blueMap s)(getDistortedValue s a \<mapsto> RObj p)
     \<and> nextRed s \<le> p \<and> p < nextRed s'
     \<and> redMap s' p = Some (BObj (getDistortedValue s a))"
proof -
  let ?t = "getDistortedValue s a"
  obtain sh s1 where c: "createRedShadowTarget n s ?t = (sh, s1)"
    by (cases "createRedShadowTarget n s ?t")
  from frame_createRedShadowTarget [OF c]
  have f: "frame s s1" and m: "blueMap s1 = blueMap s" by simp_all
  then have le: "nextRed s \<le> nextRed s1" by (simp add: frame_def)
  show ?thesis
  proof (cases "m_isBroken (getTargetMeta (blueHeap s) ?t)")
    case True
    with c m le show ?thesis
      by (auto simp: createRedProxy_def getRevokedRedProxy_def Let_def alloc_def
          setRefMapEntries_def revoke_fields)
  next
    case False
    with c m le show ?thesis
      by (auto simp: createRedProxy_def Let_def alloc_def setRefMapEntries_def)
  qed
qed

lemma getRedFunction_returns: "\<exists>r s'. getRedFunction n s a = (Inr r, s')"
  using createRedProxy_returns [of n s a]
  by (auto simp: getRedFunction_def split: option.splits)

lemma getRedValue_returns:
  "fits n (blueHeap s) v \<Longrightarrow> \<exists>r s'. getRedValue n s v = (Inr r, s')"
  "list_all (fits n (blueHeap s)) vs \<Longrightarrow>
     \<exists>rs s'. getRedElements n s vs = (Inr rs, s') \<and> length rs = length vs"
proof (induction n s v and n s vs rule: getRedValue_getRedElements.induct)
  case (4 n s a)
  show ?case
  proof (cases "isHostArray (blueHeap s a)")
    case True
    with "4.prems" obtain m where n: "n = Suc m"
      and e: "list_all (fits m (blueHeap s)) (o_elems (blueHeap s a))"
      by (auto split: nat.splits)
    from True have c: "o_typeof (blueHeap s a) \<noteq> TyUndefined"
      "o_typeof (blueHeap s a) \<noteq> TyFunction" "\<not> throwsOn (blueHeap s a) OpIsArray"
      "o_array (blueHeap s a)"
      by (simp_all add: isHostArray_def)
    from "4.IH" [OF c n] e obtain rs s1 where
      "getRedElements m s (o_elems (blueHeap s a)) = (Inr rs, s1)" by blast
    with c n show ?thesis by (simp add: alloc_def)
  next
    case False
    then have "o_typeof (blueHeap s a) = TyUndefined \<or> o_typeof (blueHeap s a) = TyFunction
       \<or> throwsOn (blueHeap s a) OpIsArray \<or> \<not> o_array (blueHeap s a)"
      by (cases "o_typeof (blueHeap s a)") (auto simp: isHostArray_def)
    then show ?thesis
      using createRedProxy_returns [of n s a] getRedFunction_returns [of n s a]
      by (auto split: option.splits)
  qed
next
  case (6 n s blue rest)
  from "6.prems" have h: "fits n (blueHeap s) blue" and t: "list_all (fits n (blueHeap s)) rest"
    by simp_all
  from "6.IH"(1) [OF h] obtain r s1 where a: "getRedValue n s blue = (Inr r, s1)" by blast
  from frame_getRedValue(1) [OF a] have "blueHeap s1 = blueHeap s" by (simp add: frame_def)
  with t have t1: "list_all (fits n (blueHeap s1)) rest" by simp
  have "\<exists>rs s2. getRedElements n s1 rest = (Inr rs, s2) \<and> length rs = length rest"
    using "6.IH"(2) a t1 by auto
  then obtain rs s2 where
    "getRedElements n s1 rest = (Inr rs, s2)" "length rs = length rest" by blast
  with a show ?case by simp
qed simp_all

section \<open>The lock-down walk\<close>

lemma getRedAccessor_returns: "\<exists>r s'. getRedAccessor n s f = (Inr r, s')"
  using getRedFunction_returns
  by (cases f) (auto simp: getRedAccessor_def)

lemma getRedDescriptor_returns:
  assumes "descFits n (blueHeap s) d"
  shows "\<exists>r s'. getRedDescriptor n s d = (Inr r, s')"
proof (cases d)
  case (DataDesc v w e c)
  with assms have f: "fits n (blueHeap s) v" by simp
  have "\<exists>r s'. (case v of BObj a \<Rightarrow> if isFunction s v then getRedFunction n s a
                        else getRedValue n s v | _ \<Rightarrow> getRedValue n s v) = (Inr r, s')"
    using getRedValue_returns(1) [OF f] getRedFunction_returns
    by (cases v) (auto simp del: getRedValue.simps)
  with DataDesc show ?thesis by auto
next
  case (AccDesc g st e c)
  obtain r1 s1 where a: "getRedAccessor n s st = (Inr r1, s1)"
    using getRedAccessor_returns by blast
  obtain r2 s2 where b: "getRedAccessor n s1 g = (Inr r2, s2)"
    using getRedAccessor_returns by blast
  from AccDesc a b show ?thesis by simp
qed

lemma map_fst_replaceDesc: "map fst (replaceDesc k d ps) = map fst ps"
  by (induction ps) auto

lemma fst_set_replaceDesc: "fst ` set (replaceDesc k d ps) = fst ` set ps"
  using map_fst_replaceDesc [of k d ps] by (metis set_map)

lemma map_of_eq_None_keys: "(map_of ps k = None) = (k \<notin> set (map fst ps))"
  by (simp add: map_of_eq_None_iff)

lemma defineProperty_extensible:
  assumes "o_extensible sh"
  shows "o_extensible (snd (defineProperty sh k d))
       \<and> set (ownKeys (snd (defineProperty sh k d))) = insert k (set (ownKeys sh))"
proof (cases "map_of (o_props sh) k")
  case None
  with assms show ?thesis
    by (simp add: defineProperty_def getOwnPropertyDescriptor_def ownKeys_def)
next
  case (Some cur)
  then have "k \<in> fst ` set (o_props sh)"
    using map_of_eq_None_keys [of "o_props sh" k] by simp
  then have "insert k (fst ` set (o_props sh)) = fst ` set (o_props sh)" by blast
  with Some assms show ?thesis
    by (simp add: defineProperty_def getOwnPropertyDescriptor_def ownKeys_def
        fst_set_replaceDesc)
qed

lemma copyBlue_step:
  assumes lt: "p < nextRed s" and ex: "o_extensible (shadowOf s p)"
    and k: "key \<in> set (map fst (hostOwnProps (blueHeap s t)))"
    and c: "copyBlueDescriptorIntoShadowTarget n s p t key = (Inr (), s1)"
  shows "keeps p s s1 \<and> p < nextRed s1 \<and> o_extensible (shadowOf s1 p)
       \<and> set (ownKeys (shadowOf s1 p)) = insert key (set (ownKeys (shadowOf s p)))"
proof -
  from k obtain bd where bd: "map_of (hostOwnProps (blueHeap s t)) key = Some bd"
    using map_of_eq_None_keys [of "hostOwnProps (blueHeap s t)" key] by auto
  from c have nt: "\<not> throwsOn (blueHeap s t) OpGetOwnPropertyDescriptor"
    by (auto simp: copyBlueDescriptorIntoShadowTarget_def split: if_splits)
  obtain x s' where g: "getRedDescriptor n s bd = (x, s')" by (cases "getRedDescriptor n s bd")
  from c nt bd g obtain rd where x: "x = Inr rd"
    and s1: "s1 = putShadow s' p (snd (defineProperty (shadowOf s' p) key rd))"
    by (cases x) (auto simp: copyBlueDescriptorIntoShadowTarget_def)
  have f: "frame s s'" using frame_getRedDescriptor [OF g] .
  from frame_wrapper [OF f lt] have sh: "shadowOf s' p = shadowOf s p" by simp
  have k1: "keeps p s s'" using frame_keeps [OF f lt] .
  have lt': "p < nextRed s'" using f lt by (simp add: frame_def)
  have "keeps p s s1" unfolding s1 using k1 keeps_putShadow by (blast intro: keeps_trans)
  moreover have "p < nextRed s1" unfolding s1 using lt' by (simp add: putShadow_simps)
  ultimately show ?thesis
    using defineProperty_extensible [OF ex, of key rd] sh
    by (simp add: s1 putShadow_simps)
qed

lemma copyBlue_returns:
  assumes "\<not> throwsOn (blueHeap s t) OpGetOwnPropertyDescriptor"
    and "list_all (\<lambda>(k, d). descFits n (blueHeap s) d) (hostOwnProps (blueHeap s t))"
  shows "\<exists>s1. copyBlueDescriptorIntoShadowTarget n s p t key = (Inr (), s1)"
proof (cases "map_of (hostOwnProps (blueHeap s t)) key")
  case None
  with assms(1) show ?thesis by (simp add: copyBlueDescriptorIntoShadowTarget_def)
next
  case (Some bd)
  then have "(key, bd) \<in> set (hostOwnProps (blueHeap s t))" by (rule map_of_SomeD)
  with assms(2) have "descFits n (blueHeap s) bd" by (auto simp: list_all_iff)
  from getRedDescriptor_returns [OF this] obtain r s' where
    "getRedDescriptor n s bd = (Inr r, s')" by blast
  with Some assms(1) show ?thesis by (simp add: copyBlueDescriptorIntoShadowTarget_def)
qed

lemma copyTargetKeys_result:
  assumes "p < nextRed s" and "o_extensible (shadowOf s p)"
    and "set ks \<subseteq> set (map fst (hostOwnProps (blueHeap s t)))"
    and "copyTargetKeys n s p t ks = (Inr (), s1)"
  shows "keeps p s s1 \<and> p < nextRed s1 \<and> o_extensible (shadowOf s1 p)
       \<and> set (ownKeys (shadowOf s1 p)) = set ks \<union> set (ownKeys (shadowOf s p))"
  using assms
proof (induction ks arbitrary: s)
  case Nil
  then show ?case by (simp add: keeps_refl)
next
  case (Cons key ks)
  obtain x s' where c: "copyBlueDescriptorIntoShadowTarget n s p t key = (x, s')"
    by (cases "copyBlueDescriptorIntoShadowTarget n s p t key")
  with Cons.prems(4) have x: "x = Inr ()" and r: "copyTargetKeys n s' p t ks = (Inr (), s1)"
    by (cases x; simp)+
  from Cons.prems(3) have k: "key \<in> set (map fst (hostOwnProps (blueHeap s t)))" by simp
  from copyBlue_step [OF Cons.prems(1,2) k c [unfolded x]]
  have st: "keeps p s s'" "p < nextRed s'" "o_extensible (shadowOf s' p)"
    "set (ownKeys (shadowOf s' p)) = insert key (set (ownKeys (shadowOf s p)))" by simp_all
  from st(1) have bh: "blueHeap s' = blueHeap s" by (simp add: keeps_def)
  with Cons.prems(3) have sub: "set ks \<subseteq> set (map fst (hostOwnProps (blueHeap s' t)))" by simp
  from Cons.IH [OF st(2,3) sub r] st show ?case
    by (auto intro: keeps_trans)
qed

lemma copyTargetKeys_returns:
  assumes "\<not> throwsOn (blueHeap s t) OpGetOwnPropertyDescriptor"
    and "list_all (\<lambda>(k, d). descFits n (blueHeap s) d) (hostOwnProps (blueHeap s t))"
    and "p < nextRed s"
  shows "\<exists>s1. copyTargetKeys n s p t ks = (Inr (), s1)"
  using assms
proof (induction ks arbitrary: s)
  case Nil
  then show ?case by simp
next
  case (Cons key ks)
  from copyBlue_returns [OF Cons.prems(1,2)] obtain s' where
    c: "copyBlueDescriptorIntoShadowTarget n s p t key = (Inr (), s')" by blast
  have "keeps p s s'"
  proof (cases "map_of (hostOwnProps (blueHeap s t)) key")
    case None
    with c Cons.prems(1) show ?thesis
      by (simp add: copyBlueDescriptorIntoShadowTarget_def keeps_refl)
  next
    case (Some bd)
    obtain x s2 where g: "getRedDescriptor n s bd = (x, s2)" by (cases "getRedDescriptor n s bd")
    have "keeps p s s2" using frame_keeps [OF frame_getRedDescriptor [OF g] Cons.prems(3)] .
    with c Some Cons.prems(1) g keeps_putShadow [of p s2] show ?thesis
      by (cases x) (auto simp: copyBlueDescriptorIntoShadowTarget_def intro: keeps_trans)
  qed
  then have "blueHeap s' = blueHeap s" "p < nextRed s'"
    using Cons.prems(3) by (simp_all add: keeps_def)
  with Cons.IH [of s'] Cons.prems(1,2) obtain s1 where
    "copyTargetKeys n s' p t ks = (Inr (), s1)" by auto
  with c show ?case by simp
qed

lemma lockShadowTarget_result:
  assumes lt: "p < nextRed s" and ex: "o_extensible (shadowOf s p)"
    and l: "lockShadowTarget n s p t = (Inr (), s1)"
  shows "keeps p s s1 \<and> \<not> o_extensible (shadowOf s1 p)
       \<and> set (ownKeys (shadowOf s1 p))
           = set (map fst (hostOwnProps (blueHeap s t))) \<union> set (ownKeys (shadowOf s p))"
proof -
  from l have nt: "\<not> throwsOn (blueHeap s t) OpOwnKeys"
    by (auto simp: lockShadowTarget_def split: if_splits)
  obtain x s' where c: "copyTargetKeys n s p t (map fst (hostOwnProps (blueHeap s t))) = (x, s')"
    by (cases "copyTargetKeys n s p t (map fst (hostOwnProps (blueHeap s t)))")
  with l nt have x: "x = Inr ()"
    and s1: "s1 = putShadow s' p (preventExtensions (shadowOf s' p))"
    by (cases x; simp add: lockShadowTarget_def)+
  from copyTargetKeys_result [OF lt ex subset_refl c [unfolded x]]
  have st: "keeps p s s'"
    "set (ownKeys (shadowOf s' p))
       = set (map fst (hostOwnProps (blueHeap s t))) \<union> set (ownKeys (shadowOf s p))"
    by simp_all
  have "keeps p s s1" unfolding s1 using st(1) keeps_putShadow by (blast intro: keeps_trans)
  with st(2) show ?thesis
    by (simp add: s1 putShadow_simps preventExtensions_def ownKeys_def)
qed

lemma lockShadowTarget_returns:
  assumes "lockable n s t" and "p < nextRed s"
  shows "\<exists>s1. lockShadowTarget n s p t = (Inr (), s1)"
proof -
  from assms(1) have a: "\<not> throwsOn (blueHeap s t) OpOwnKeys"
    "\<not> throwsOn (blueHeap s t) OpGetOwnPropertyDescriptor"
    "list_all (\<lambda>(k, d). descFits n (blueHeap s) d) (hostOwnProps (blueHeap s t))"
    by (simp_all add: lockable_def)
  from copyTargetKeys_returns [OF a(2,3) assms(2)] obtain s' where
    "copyTargetKeys n s p t (map fst (hostOwnProps (blueHeap s t))) = (Inr (), s')" by blast
  with a(1) show ?thesis by (simp add: lockShadowTarget_def)
qed


lemma targetOf_dynamic: "handlerOf s p = RedDynamicProxyHandler t \<Longrightarrow> targetOf s p = t"
  by (simp add: targetOf_def)

lemma hostPreventExtensions_result:
  assumes "hostPreventExtensions s t = (Inr ok, s1)"
  shows "nextRed s1 = nextRed s \<and> shadowOf s1 p = shadowOf s p \<and> handlerOf s1 p = handlerOf s p
       \<and> (ok \<longrightarrow> \<not> o_extensible (blueHeap s1 t))"
  using assms
  by (auto simp: hostPreventExtensions_def shadowOf_def handlerOf_def split: if_splits)

lemmas live_defs = wrappedLive_def hostLive_def ex_defs

lemma wrappedLive_facts:
  "handlerOf (wrappedLive e r) 0 = RedDynamicProxyHandler 1"
  "0 < nextRed (wrappedLive e r)"
  "o_extensible (shadowOf (wrappedLive e r) 0)"
  "blueHeap (wrappedLive e r) 1 = hostLive e r"
  "lockable 0 (wrappedLive e r) 1"
  by (simp_all add: live_defs lockable_def)

lemmas lock_defs = lockedLive_def targetOf_def hostIsExtensible_def lockThenAnswer_def
  lockShadowTarget_def copyBlueDescriptorIntoShadowTarget_def isFunction_def
  defineProperty_def getOwnPropertyDescriptor_def preventExtensions_def

lemma lockedLive_facts:
  "handlerOf (lockedLive r) 0 = RedDynamicProxyHandler 1"
  "0 < nextRed (lockedLive r)"
  "\<not> o_extensible (shadowOf (lockedLive r) 0)"
  "blueHeap (lockedLive r) 1 = hostLive False r"
  by (simp_all add: lock_defs live_defs)

section \<open>Two conversions of one host value\<close>














section \<open>Properties of the install policy\<close>

lemma map_of_replaceDesc:
  "map_of (replaceDesc k d ps) k'
     = (if k' = k \<and> map_of ps k \<noteq> None then Some d else map_of ps k')"
  by (induction ps) auto

lemma map_of_storeValue:
  "map_of (storeValue k v ps) k'
     = (if k' = k then map_option (withValue v) (map_of ps k) else map_of ps k')"
  by (induction ps) (auto split: desc.splits)

lemma withValue_writable:
  "isData cur \<Longrightarrow> writable cur \<Longrightarrow> \<not> configurable cur \<Longrightarrow>
   withValue v cur = DataDesc v True (enumerable cur) False"
  by (cases cur) auto

lemma defineProperty_keeps_extensible:
  "o_extensible (snd (defineProperty ob k d)) = o_extensible ob"
  by (simp add: defineProperty_def split: option.splits)

lemma createRedShadowTarget_extensible: "o_extensible (fst (createRedShadowTarget n s blue))"
  by (simp add: createRedShadowTarget_def renameFunction_def defineProperty_keeps_extensible
      functionShadow_def arrowShadow_def objectShadow_def alloc_def Let_def
      split: sum.splits bool.splits option.splits)

text \<open>
  Claim C7. When the snapshot is copied, a descriptor is installed under a key of the shadow
  target as follows. If the key has a configurable descriptor there, the captured descriptor
  replaces it as a whole. If it has a non-configurable descriptor that is a writable data
  descriptor, only the stored value is replaced (by the \<^verbatim>\<open>value\<close> field of the captured
  descriptor). If it has any other non-configurable descriptor, the shadow target is left
  as it is. If it has none, the captured descriptor is installed; the shadow target is
  extensible then, since the copy runs before the lifecycle is applied. No other key is
  touched.
\<close>

theorem install_policy:
  fixes sh :: "rval obj" and key :: pkey and d :: "rval desc"
  defines "sh' \<equiv> installDescriptorIntoShadowTarget sh key d"
  shows "(\<forall>cur. getOwnPropertyDescriptor sh key = Some cur \<and> configurable cur
            \<longrightarrow> getOwnPropertyDescriptor sh' key = Some d)
       \<and> (\<forall>cur. getOwnPropertyDescriptor sh key = Some cur \<and> \<not> configurable cur
               \<and> isData cur \<and> writable cur
            \<longrightarrow> getOwnPropertyDescriptor sh' key
                  = Some (DataDesc (valueField RUndef d) True (enumerable cur) False))
       \<and> (\<forall>cur. getOwnPropertyDescriptor sh key = Some cur \<and> \<not> configurable cur
               \<and> \<not> (isData cur \<and> writable cur) \<longrightarrow> sh' = sh)
       \<and> (getOwnPropertyDescriptor sh key = None \<and> o_extensible sh
            \<longrightarrow> getOwnPropertyDescriptor sh' key = Some d)
       \<and> (\<forall>k. k \<noteq> key \<longrightarrow> getOwnPropertyDescriptor sh' k = getOwnPropertyDescriptor sh k)
       \<and> o_extensible sh' = o_extensible sh \<and> o_proto sh' = o_proto sh"
  unfolding sh'_def installDescriptorIntoShadowTarget_def defineProperty_def
    getOwnPropertyDescriptor_def assignOwn_def
  by (auto simp: map_of_replaceDesc map_of_storeValue map_add_def withValue_writable split: option.splits)

theorem install_policy_witness:
  "getOwnPropertyDescriptor
     (installDescriptorIntoShadowTarget (functionShadow 7) (KStr ''name'')
        (DataDesc (RPrim (PStr ''f'')) False False True)) (KStr ''name'')
     = Some (DataDesc (RPrim (PStr ''f'')) False False True)
   \<and> getOwnPropertyDescriptor
     (installDescriptorIntoShadowTarget (functionShadow 7) (KStr ''prototype'')
        (DataDesc (RObj 3) False False False)) (KStr ''prototype'')
     = Some (DataDesc (RObj 3) True False False)
   \<and> installDescriptorIntoShadowTarget (freeze arrowShadow) (KStr ''length'')
        (DataDesc (RPrim (PNum 2)) False False True) = freeze arrowShadow
   \<and> getOwnPropertyDescriptor
     (installDescriptorIntoShadowTarget objectShadow (KStr ''x'')
        (DataDesc (RPrim (PNum 1)) True True True)) (KStr ''x'')
     = Some (DataDesc (RPrim (PNum 1)) True True True)"
proof -
  have a: "getOwnPropertyDescriptor (functionShadow 7) (KStr ''name'')
             = Some (DataDesc (RPrim (PStr [])) False False True)"
    by (simp add: getOwnPropertyDescriptor_def functionShadow_def arrowShadow_def)
  have b: "getOwnPropertyDescriptor (functionShadow 7) (KStr ''prototype'')
             = Some (DataDesc (RObj 7) True False False)"
    by (simp add: getOwnPropertyDescriptor_def functionShadow_def arrowShadow_def)
  have c: "getOwnPropertyDescriptor (freeze arrowShadow) (KStr ''length'')
             = Some (DataDesc (RPrim (PNum 0)) False False False)"
    by (simp add: getOwnPropertyDescriptor_def freeze_def arrowShadow_def)
  have d: "getOwnPropertyDescriptor objectShadow (KStr ''x'') = None \<and> o_extensible objectShadow"
    by (simp add: getOwnPropertyDescriptor_def objectShadow_def)
  from a install_policy [of "functionShadow 7" "KStr ''name''"
      "DataDesc (RPrim (PStr ''f'')) False False True"]
  have 1: "getOwnPropertyDescriptor
     (installDescriptorIntoShadowTarget (functionShadow 7) (KStr ''name'')
        (DataDesc (RPrim (PStr ''f'')) False False True)) (KStr ''name'')
     = Some (DataDesc (RPrim (PStr ''f'')) False False True)" by simp
  from b install_policy [of "functionShadow 7" "KStr ''prototype''"
      "DataDesc (RObj 3) False False False"]
  have 2: "getOwnPropertyDescriptor
     (installDescriptorIntoShadowTarget (functionShadow 7) (KStr ''prototype'')
        (DataDesc (RObj 3) False False False)) (KStr ''prototype'')
     = Some (DataDesc (RObj 3) True False False)" by simp
  from c install_policy [of "freeze arrowShadow" "KStr ''length''"
      "DataDesc (RPrim (PNum 2)) False False True"]
  have 3: "installDescriptorIntoShadowTarget (freeze arrowShadow) (KStr ''length'')
        (DataDesc (RPrim (PNum 2)) False False True) = freeze arrowShadow" by simp
  from d install_policy [of objectShadow "KStr ''x''" "DataDesc (RPrim (PNum 1)) True True True"]
  have 4: "getOwnPropertyDescriptor
     (installDescriptorIntoShadowTarget objectShadow (KStr ''x'')
        (DataDesc (RPrim (PNum 1)) True True True)) (KStr ''x'')
     = Some (DataDesc (RPrim (PNum 1)) True True True)" by simp
  from 1 2 3 4 show ?thesis by blast
qed

section \<open>Broken targets\<close>

lemma getTargetMeta_broken:
  "m_isBroken (getTargetMeta heap t) = extractionFails (heap t)"
  by (auto simp: getTargetMeta_def extractionFails_def probedMeta_def brokenMeta_def Let_def)

lemma getTargetMeta_broken_fields:
  "m_isBroken (getTargetMeta heap t) \<Longrightarrow>
   m_proto (getTargetMeta heap t) = BNull \<and> m_descriptors (getTargetMeta heap t) = []"
  by (auto simp: getTargetMeta_def probedMeta_def brokenMeta_def Let_def split: if_splits)

lemma revoked_forever:
  "handlerOf s p = RevokedHandler \<Longrightarrow>
   performAll env n s p ops = (map (\<lambda>op. Inl GuestTypeError) ops, s)"
  by (induction ops) (auto simp: proxyOperation_def)

lemma getRevokedRedProxy_revoked:
  "\<exists>p s'. getRevokedRedProxy n s blue = (Inr p, s') \<and> handlerOf s' p = RevokedHandler
      \<and> blueHeap s' = blueHeap s"
proof -
  obtain sh s1 where c: "createRedShadowTarget n s blue = (sh, s1)"
    by (cases "createRedShadowTarget n s blue")
  have "blueHeap s1 = blueHeap s" using c
    by (auto simp: createRedShadowTarget_def alloc_def Let_def split: if_splits sum.splits bool.splits)
  then show ?thesis using c
    by (simp add: getRevokedRedProxy_def alloc_def setRefMapEntries_def revoke_def handlerOf_def)
qed

text \<open>
  Claim C4. If a step of the metadata extraction throws on the (distorted) host value,
  the metadata has \<open>broken\<close> set, a null parent and no attribute; the factory returns a
  wrapper that is revoked; and every operation of any sequence of operations on that
  wrapper throws the \<^verbatim>\<open>TypeError\<close> of a revoked proxy and leaves the state as it is.
\<close>

theorem broken_target_revoked:
  assumes "extractionFails (blueHeap s (getDistortedValue s h))"
  shows "m_isBroken (getTargetMeta (blueHeap s) (getDistortedValue s h))
       \<and> m_proto (getTargetMeta (blueHeap s) (getDistortedValue s h)) = BNull
       \<and> m_descriptors (getTargetMeta (blueHeap s) (getDistortedValue s h)) = []
       \<and> (\<exists>p s'. createRedProxy n s h = (Inr (RObj p), s')
             \<and> handlerOf s' p = RevokedHandler
             \<and> (\<forall>env k ops. performAll env k s' p ops
                    = (map (\<lambda>op. Inl GuestTypeError) ops, s')))"
proof -
  let ?t = "getDistortedValue s h"
  have b: "m_isBroken (getTargetMeta (blueHeap s) ?t)"
    using assms by (simp add: getTargetMeta_broken)
  obtain p s1 where r: "getRevokedRedProxy n s ?t = (Inr p, s1)"
    and h: "handlerOf s1 p = RevokedHandler"
    using getRevokedRedProxy_revoked by blast
  have c: "createRedProxy n s h
            = (Inr (RObj p), s1\<lparr>redMap := (redMap s1)(p \<mapsto> BObj ?t), blueMap := (blueMap s1)(?t \<mapsto> RObj p)\<rparr>)"
    using b r by (simp add: createRedProxy_def Let_def setRefMapEntries_def)
  have "handlerOf (s1\<lparr>redMap := (redMap s1)(p \<mapsto> BObj ?t), blueMap := (blueMap s1)(?t \<mapsto> RObj p)\<rparr>) p
          = RevokedHandler"
    using h by (simp add: handlerOf_def)
  with b c getTargetMeta_broken_fields [OF b] revoked_forever show ?thesis
    by blast
qed

theorem broken_target_revoked_witness:
  "extractionFails (blueHeap (withHost 1 revokedHost emptyState)
       (getDistortedValue (withHost 1 revokedHost emptyState) 1))
   \<and> (\<exists>p s'. createRedProxy 0 (withHost 1 revokedHost emptyState) 1 = (Inr (RObj p), s')
         \<and> handlerOf s' p = RevokedHandler
         \<and> performAll quietEnv 0 s' p [DoGet (KStr ''x'') RUndef, DoOwnKeys]
             = ([Inl GuestTypeError, Inl GuestTypeError], s'))"
proof -
  have h: "extractionFails (blueHeap (withHost 1 revokedHost emptyState)
       (getDistortedValue (withHost 1 revokedHost emptyState) 1))"
    by (simp add: extractionFails_def withHost_def revokedHost_def emptyState_def
        getDistortedValue_def throwsOn_def)
  from broken_target_revoked [OF h, of 0] obtain p s' where
    c: "createRedProxy 0 (withHost 1 revokedHost emptyState) 1 = (Inr (RObj p), s')"
    and r: "handlerOf s' p = RevokedHandler"
    and f: "\<forall>env k ops. performAll env k s' p ops = (map (\<lambda>op. Inl GuestTypeError) ops, s')"
    by blast
  from f have "performAll quietEnv 0 s' p [DoGet (KStr ''x'') RUndef, DoOwnKeys]
      = (map (\<lambda>op. Inl GuestTypeError) [DoGet (KStr ''x'') RUndef, DoOwnKeys], s')"
    by blast
  then have "performAll quietEnv 0 s' p [DoGet (KStr ''x'') RUndef, DoOwnKeys]
      = ([Inl GuestTypeError, Inl GuestTypeError], s')"
    by (simp del: performAll.simps)
  with c r have "createRedProxy 0 (withHost 1 revokedHost emptyState) 1 = (Inr (RObj p), s')
         \<and> handlerOf s' p = RevokedHandler
         \<and> performAll quietEnv 0 s' p [DoGet (KStr ''x'') RUndef, DoOwnKeys]
             = ([Inl GuestTypeError, Inl GuestTypeError], s')"
    by blast
  with h show ?thesis by blast
qed

section \<open>The error boundary\<close>









section \<open>Construction without a new target\<close>



section \<open>Static isolation\<close>



section \<open>Initialization at most once\<close>



section \<open>The extensibility query of a dynamic wrapper\<close>



section \<open>Prevent-extensions on a dynamic wrapper\<close>

text \<open>
  Claim C5, as amended. While the shadow target is extensible, the operation calls
  \<^verbatim>\<open>preventExtensions\<close> on the host value; if the host value is not extensible after the
  call, whether the call succeeded or not, the lock-down walk runs, and the answer is the
  answer of the host call. Once the shadow target is locked, the operation answers
  \<^verbatim>\<open>true\<close> and does not go to the host.
\<close>

theorem dynamic_preventExtensions:
  assumes h: "handlerOf s p = RedDynamicProxyHandler t" and lt: "p < nextRed s"
  shows "(\<not> o_extensible (shadowOf s p) \<longrightarrow>
            dynamicTrap env n s p DoPreventExtensions = (Inr (ABool True), s))
       \<and> (\<forall>ok s1. o_extensible (shadowOf s p) \<and> hostPreventExtensions s t = (Inr ok, s1)
              \<and> (ok \<or> \<not> throwsOn (blueHeap s1 t) OpIsExtensible) \<longrightarrow>
            (o_extensible (blueHeap s1 t) \<longrightarrow>
               dynamicTrap env n s p DoPreventExtensions = (Inr (ABool ok), s1))
            \<and> (\<not> o_extensible (blueHeap s1 t) \<longrightarrow>
                 dynamicTrap env n s p DoPreventExtensions = lockThenAnswer n s1 p t ok
                 \<and> (lockable n s1 t \<longrightarrow>
                      (\<exists>s2. lockShadowTarget n s1 p t = (Inr (), s2)
                         \<and> dynamicTrap env n s p DoPreventExtensions = (Inr (ABool ok), s2)
                         \<and> \<not> o_extensible (shadowOf s2 p)))))"
proof (intro conjI allI impI)
  assume "\<not> o_extensible (shadowOf s p)"
  then show "dynamicTrap env n s p DoPreventExtensions = (Inr (ABool True), s)"
    by simp
next
  fix ok s1
  assume a: "o_extensible (shadowOf s p) \<and> hostPreventExtensions s t = (Inr ok, s1)
              \<and> (ok \<or> \<not> throwsOn (blueHeap s1 t) OpIsExtensible)"
  assume e: "o_extensible (blueHeap s1 t)"
  from a hostPreventExtensions_result [of s t ok s1 p] e have "\<not> ok" by blast
  with a e show "dynamicTrap env n s p DoPreventExtensions = (Inr (ABool ok), s1)"
    by (simp add: targetOf_dynamic [OF h] hostIsExtensible_def)
next
  fix ok s1
  assume a: "o_extensible (shadowOf s p) \<and> hostPreventExtensions s t = (Inr ok, s1)
              \<and> (ok \<or> \<not> throwsOn (blueHeap s1 t) OpIsExtensible)"
  assume e: "\<not> o_extensible (blueHeap s1 t)"
  from a e show r: "dynamicTrap env n s p DoPreventExtensions = lockThenAnswer n s1 p t ok"
    by (cases ok) (simp_all add: targetOf_dynamic [OF h] hostIsExtensible_def)
  assume lk: "lockable n s1 t"
  from a hostPreventExtensions_result [of s t ok s1 p] lt
  have lt1: "p < nextRed s1" and ex1: "o_extensible (shadowOf s1 p)" by simp_all
  from lockShadowTarget_returns [OF lk lt1] obtain s2 where
    l: "lockShadowTarget n s1 p t = (Inr (), s2)" by blast
  from lockShadowTarget_result [OF lt1 ex1 l] have "\<not> o_extensible (shadowOf s2 p)" by simp
  with r l show "\<exists>s2. lockShadowTarget n s1 p t = (Inr (), s2)
                         \<and> dynamicTrap env n s p DoPreventExtensions = (Inr (ABool ok), s2)
                         \<and> \<not> o_extensible (shadowOf s2 p)"
    by (simp add: lockThenAnswer_def)
qed

theorem dynamic_preventExtensions_witness:
  "handlerOf (wrappedLive True False) 0 = RedDynamicProxyHandler 1
   \<and> 0 < nextRed (wrappedLive True False)
   \<and> o_extensible (shadowOf (wrappedLive True False) 0)
   \<and> fst (hostPreventExtensions (wrappedLive True False) 1) = Inr True
   \<and> fst (dynamicTrap quietEnv 0 (wrappedLive True False) 0 DoPreventExtensions) = Inr (ABool True)
   \<and> \<not> o_extensible
        (shadowOf (snd (dynamicTrap quietEnv 0 (wrappedLive True False) 0 DoPreventExtensions)) 0)
   \<and> \<not> o_extensible (shadowOf (lockedLive False) 0)
   \<and> dynamicTrap quietEnv 0 (lockedLive False) 0 DoPreventExtensions
        = (Inr (ABool True), lockedLive False)"
proof -
  note e = wrappedLive_facts [of True False]
  note k = lockedLive_facts [of False]
  let ?s1 = "(wrappedLive True False)\<lparr>blueHeap := (blueHeap (wrappedLive True False))
      (1 := (blueHeap (wrappedLive True False) 1)\<lparr>o_extensible := False\<rparr>)\<rparr>"
  have hp: "hostPreventExtensions (wrappedLive True False) 1 = (Inr True, ?s1)"
    using e(4) by (simp add: hostPreventExtensions_def hostLive_def plainHost_def throwsOn_def)
  have ne: "\<not> o_extensible (blueHeap ?s1 1)" by simp
  have lk: "lockable 0 ?s1 1"
    using e(4) by (simp add: lockable_def throwsOn_def hostOwnProps_def hostLive_def plainHost_def)
  from dynamic_preventExtensions [OF e(1) e(2), of quietEnv 0] e(3) hp ne lk
  have "\<exists>s2. dynamicTrap quietEnv 0 (wrappedLive True False) 0 DoPreventExtensions
               = (Inr (ABool True), s2) \<and> \<not> o_extensible (shadowOf s2 0)"
    by (simp del: dynamicTrap.simps) blast
  then have 1: "fst (dynamicTrap quietEnv 0 (wrappedLive True False) 0 DoPreventExtensions)
                  = Inr (ABool True)"
    and 2: "\<not> o_extensible
        (shadowOf (snd (dynamicTrap quietEnv 0 (wrappedLive True False) 0 DoPreventExtensions)) 0)"
    by auto
  from dynamic_preventExtensions [OF k(1) k(2), of quietEnv 0] k(3)
  have 3: "dynamicTrap quietEnv 0 (lockedLive False) 0 DoPreventExtensions
        = (Inr (ABool True), lockedLive False)"
    by (simp del: dynamicTrap.simps)
  from e(1,2,3) hp 1 2 3 k(3) show ?thesis by simp
qed

text \<open>
  The claim as it is written fails on a locked wrapper whose host value rejects
  \<^verbatim>\<open>preventExtensions\<close>: the wrapper answers \<^verbatim>\<open>true\<close>.
\<close>

theorem dynamic_preventExtensions_counterexample:
  "fst (hostPreventExtensions (lockedLive True) 1) = Inr False
   \<and> fst (proxyOperation quietEnv 0 (lockedLive True) 0 DoPreventExtensions) = Inr (ABool True)"
  using lockedLive_facts [of True]
  by (simp add: hostPreventExtensions_def proxyOperation_def hostLive_def plainHost_def
      throwsOn_def)

section \<open>Identity stability\<close>




text \<open>
  A host value that a distortion replaces is looked up under its own identity and
  registered under the identity of its replacement: it is wrapped anew on every call.
\<close>

lemma distorted_value_wrapped_twice:
  "fst (getRedValue 0 ((withHost 1 (hostX 1) emptyState)\<lparr>distortionMap := [1 \<mapsto> 2]\<rparr>) (BObj 1))
     = Inr (RObj 0)
   \<and> fst (getRedValue 0
          (snd (getRedValue 0 ((withHost 1 (hostX 1) emptyState)\<lparr>distortionMap := [1 \<mapsto> 2]\<rparr>)
                  (BObj 1)))
          (BObj 1)) = Inr (RObj 1)"
  by (simp add: ex_defs)

section \<open>Arrays\<close>





end
